theory Spec2Isabelle
  imports Complex_Main "HOL-Library.Char_ord" "HOL-Library.List_Lexorder"
begin

section \<open>Calendar dates\<close>

text \<open>
  The program keeps every date as a \<^verbatim>\<open>chrono::system_clock::time_point\<close> that was produced by
  \<^verbatim>\<open>mktime\<close> at local midnight, and reads it back with \<^verbatim>\<open>localtime\<close>. Such a time point is
  determined by its civil date, so a date is modelled by the three fields of \<^verbatim>\<open>struct tm\<close> the
  code reads: the year (\<^verbatim>\<open>tm_year + 1900\<close>), the month (\<^verbatim>\<open>tm_mon + 1\<close>) and the day of the month.
  Comparing two time points is comparing the civil dates. The C type \<^verbatim>\<open>int\<close> of these fields is
  modelled by \<^typ>\<open>int\<close>: the years of a \<^verbatim>\<open>time_t\<close> stay far inside 32 bits.
\<close>

datatype date = Date (year: int) (month: int) (day: int)

fun date_lt :: "date \<Rightarrow> date \<Rightarrow> bool" where
  "date_lt (Date y1 m1 d1) (Date y2 m2 d2) =
     (y1 < y2 \<or> (y1 = y2 \<and> (m1 < m2 \<or> (m1 = m2 \<and> d1 < d2))))"

definition date_le :: "date \<Rightarrow> date \<Rightarrow> bool" where
  "date_le a b = (a = b \<or> date_lt a b)"

text \<open>The division and remainder of C++ truncate towards zero.\<close>

definition cdiv :: "int \<Rightarrow> int \<Rightarrow> int" where
  "cdiv a b = sgn a * sgn b * (\<bar>a\<bar> div \<bar>b\<bar>)"

definition cmod :: "int \<Rightarrow> int \<Rightarrow> int" where
  "cmod a b = a - b * cdiv a b"

definition mdays :: "int list" where
  "mdays = [31,28,31,30,31,30,31,31,30,31,30,31]"

text \<open>
  \<^verbatim>\<open>daysInMonth\<close>. For a month outside 1..12 the source reads outside the table \<^verbatim>\<open>mdays\<close>
  (undefined behaviour); the model returns 0 there. Every caller passes a month in 1..12.
\<close>

definition daysInMonth :: "int \<Rightarrow> int \<Rightarrow> int" where
  "daysInMonth yr mo =
     (if mo = 2 then
        28 + (if cmod yr 4 = 0 \<and> (cmod yr 100 \<noteq> 0 \<or> cmod yr 400 = 0) then 1 else 0)
      else if 1 \<le> mo \<and> mo \<le> 12 then mdays ! nat (mo - 1) else 0)"

text \<open>
  The C library's \<^verbatim>\<open>mktime\<close> followed by \<^verbatim>\<open>localtime\<close>, at local midnight: a month outside
  1..12 is carried into the year, a day outside the month is carried into the neighbouring
  months, one day at a time; a date that is already a calendar date is left as it is.
\<close>

fun next_day :: "date \<Rightarrow> date" where
  "next_day (Date y m d) =
     (if d < daysInMonth y m then Date y m (d + 1)
      else if m < 12 then Date y (m + 1) 1 else Date (y + 1) 1 1)"

fun prev_day :: "date \<Rightarrow> date" where
  "prev_day (Date y m d) =
     (if 1 < d then Date y m (d - 1)
      else if 1 < m then Date y (m - 1) (daysInMonth y (m - 1)) else Date (y - 1) 12 31)"

fun days_forward :: "nat \<Rightarrow> date \<Rightarrow> date" where
  "days_forward 0 dt = dt"
| "days_forward (Suc n) dt = days_forward n (next_day dt)"

fun days_backward :: "nat \<Rightarrow> date \<Rightarrow> date" where
  "days_backward 0 dt = dt"
| "days_backward (Suc n) dt = days_backward n (prev_day dt)"

definition mktime_date :: "int \<Rightarrow> int \<Rightarrow> int \<Rightarrow> date" where
  "mktime_date y m d =
     (let y' = y + (m - 1) div 12; m' = (m - 1) mod 12 + 1 in
      if 1 \<le> d \<and> d \<le> daysInMonth y' m' then Date y' m' d
      else if d < 1 then days_backward (nat (1 - d)) (Date y' m' 1)
      else days_forward (nat (d - 1)) (Date y' m' 1))"

fun addDays :: "date \<Rightarrow> int \<Rightarrow> date" where
  "addDays (Date y m d) days = mktime_date y m (d + days)"

fun addMonths :: "date \<Rightarrow> int \<Rightarrow> date" where
  "addMonths (Date yr mo dy) months =
     (let totalMonths = mo - 1 + months;
          newYear0 = yr + cdiv totalMonths 12;
          newMonth0 = cmod totalMonths 12 + 1;
          newMonth = (if newMonth0 \<le> 0 then newMonth0 + 12 else newMonth0);
          newYear = (if newMonth0 \<le> 0 then newYear0 - 1 else newYear0);
          last = daysInMonth newYear newMonth;
          useDay = min dy last
      in mktime_date newYear newMonth useDay)"

fun nextMonthlyOn :: "date \<Rightarrow> int \<Rightarrow> date" where
  "nextMonthlyOn (Date yr mo curDay) dy =
     (if curDay < dy then
        (let last = daysInMonth yr mo; useDay = min dy last
         in mktime_date yr mo useDay)
      else
        (let month1 = mo + 1;
             month2 = (if month1 > 12 then 1 else month1);
             year2 = (if month1 > 12 then yr + 1 else yr);
             last = daysInMonth year2 month2;
             useDay = min dy last
         in mktime_date year2 month2 useDay))"

fun monthsBetweenInclusive :: "date \<Rightarrow> date \<Rightarrow> int" where
  "monthsBetweenInclusive (Date sy sm sd) (Date ey em ed) =
     (if date_lt (Date ey em ed) (Date sy sm sd) then 0
      else (let months = (ey - sy) * 12 + (em - sm);
                months' = (if ed \<ge> sd then months + 1 else months)
            in max 0 months'))"

section \<open>Escaped record codec\<close>

definition bslash :: char where
  "bslash = CHR 0x5C"

definition newline :: char where
  "newline = CHR 0x0A"

definition pipe :: char where
  "pipe = CHR 0x7C"

fun escapeForSave :: "string \<Rightarrow> string" where
  "escapeForSave [] = []"
| "escapeForSave (c # cs) =
     (if c = bslash then [bslash, bslash]
      else if c = pipe then [bslash, pipe]
      else if c = newline then [bslash, CHR ''n'']
      else [c]) @ escapeForSave cs"

fun unescapeLoaded :: "string \<Rightarrow> string" where
  "unescapeLoaded [] = []"
| "unescapeLoaded [c] = [c]"
| "unescapeLoaded (c # n # cs) =
     (if c = bslash then (if n = CHR ''n'' then newline else n) # unescapeLoaded cs
      else c # unescapeLoaded (n # cs))"

text \<open>
  The scanning loop of \<^verbatim>\<open>splitEscaped\<close>, with its three variables \<^verbatim>\<open>parts\<close>, \<^verbatim>\<open>cur\<close> and
  \<^verbatim>\<open>esc\<close>. The same loop is written out a second time in the settings section of
  \<^verbatim>\<open>loadFromFile\<close>.
\<close>

fun splitScan :: "string list \<Rightarrow> string \<Rightarrow> bool \<Rightarrow> string \<Rightarrow> string list" where
  "splitScan parts cur esc [] = parts @ [cur]"
| "splitScan parts cur esc (c # cs) =
     (if esc then splitScan parts (cur @ [c]) False cs
      else if c = bslash then splitScan parts cur True cs
      else if c = pipe then splitScan (parts @ [cur]) [] False cs
      else splitScan parts (cur @ [c]) False cs)"

definition splitEscaped :: "string \<Rightarrow> string list" where
  "splitEscaped s = map unescapeLoaded (splitScan [] [] False s)"

text \<open>
  A record line as \<^verbatim>\<open>saveToFile\<close> writes it: the escaped fields with a pipe between two
  neighbours.
\<close>

fun joinEscaped :: "string list \<Rightarrow> string" where
  "joinEscaped [] = []"
| "joinEscaped [f] = escapeForSave f"
| "joinEscaped (f # g # fs) = escapeForSave f @ [pipe] @ joinEscaped (g # fs)"

section \<open>Category names\<close>

text \<open>
  The character classes of \<^verbatim>\<open><cctype>\<close> in the "C" locale, which is the one in force: the
  program never calls \<^verbatim>\<open>setlocale\<close>.
\<close>

definition isspace_c :: "char \<Rightarrow> bool" where
  "isspace_c c = (c = CHR 0x20 \<or> c = CHR 0x09 \<or> c = CHR 0x0A \<or> c = CHR 0x0B
                  \<or> c = CHR 0x0C \<or> c = CHR 0x0D)"

definition isalnum_c :: "char \<Rightarrow> bool" where
  "isalnum_c c = (let n = (of_char c :: nat) in
     (48 \<le> n \<and> n \<le> 57) \<or> (65 \<le> n \<and> n \<le> 90) \<or> (97 \<le> n \<and> n \<le> 122))"

definition tolower_c :: "char \<Rightarrow> char" where
  "tolower_c c = (let n = (of_char c :: nat) in
     if 65 \<le> n \<and> n \<le> 90 then char_of (n + 32) else c)"

definition trim_c :: "string \<Rightarrow> string" where
  "trim_c s = rev (dropWhile isspace_c (rev (dropWhile isspace_c s)))"

definition normalizeKey :: "string \<Rightarrow> string" where
  "normalizeKey s = (let out = map tolower_c (trim_c s) in
     if out = [] then ''other'' else out)"

fun collapseSpaces :: "bool \<Rightarrow> string \<Rightarrow> string" where
  "collapseSpaces lastSpace [] = []"
| "collapseSpaces lastSpace (c # cs) =
     (if isspace_c c then
        (if \<not> lastSpace then CHR 0x20 # collapseSpaces True cs else collapseSpaces True cs)
      else c # collapseSpaces False cs)"

definition sanitizeDisplayName :: "string \<Rightarrow> string" where
  "sanitizeDisplayName s =
     (let tmp = filter (\<lambda>c. isalnum_c c \<or> isspace_c c) s;
          out = trim_c (collapseSpaces False tmp)
      in if out = [] then ''Category'' else out)"

section \<open>Ordered maps\<close>

text \<open>
  A \<^verbatim>\<open>std::map<string, V>\<close> is modelled by its sequence of entries in iteration order, that
  is, by increasing key (\<^verbatim>\<open>std::string\<close> compares bytes lexicographically, as the order on
  \<^typ>\<open>string\<close> does). \<open>map_put\<close> is the assignment \<^verbatim>\<open>m[k] = v\<close>, \<open>map_index\<close> the expression
  \<^verbatim>\<open>m[k]\<close>, which inserts a default value under a missing key, and \<open>map_plus\<close> the statement
  \<^verbatim>\<open>m[k] += x\<close>.
\<close>

type_synonym 'v smap = "(string \<times> 'v) list"

definition keys :: "'v smap \<Rightarrow> string set" where
  "keys m = fst ` set m"

fun map_put :: "string \<Rightarrow> 'v \<Rightarrow> 'v smap \<Rightarrow> 'v smap" where
  "map_put k v [] = [(k, v)]"
| "map_put k v ((k', v') # m) =
     (if k = k' then (k, v) # m
      else if k < k' then (k, v) # (k', v') # m
      else (k', v') # map_put k v m)"

definition map_has :: "string \<Rightarrow> 'v smap \<Rightarrow> bool" where
  "map_has k m = (map_of m k \<noteq> None)"

definition map_index :: "string \<Rightarrow> 'v \<Rightarrow> 'v smap \<Rightarrow> 'v \<times> 'v smap" where
  "map_index k dflt m =
     (case map_of m k of Some v \<Rightarrow> (v, m) | None \<Rightarrow> (dflt, map_put k dflt m))"

definition map_plus :: "string \<Rightarrow> rat \<Rightarrow> rat smap \<Rightarrow> rat smap" where
  "map_plus k x m = (let (v, m') = map_index k 0 m in map_put k (v + x) m')"

definition put_if_absent :: "string \<Rightarrow> 'v \<Rightarrow> 'v smap \<Rightarrow> 'v smap" where
  "put_if_absent k v m = (if map_has k m then m else map_put k v m)"

section \<open>The ledger\<close>

text \<open>
  Amounts, percentages and rates are \<^verbatim>\<open>double\<close> in the source. They are modelled by exact
  rationals: the rounding of floating-point arithmetic is not part of the model.
\<close>

record Transaction =
  tx_date :: date
  tx_amount :: rat
  tx_category :: string
  tx_note :: string

datatype ScheduleType = EveryXDays | MonthlyDay

record Schedule =
  s_type :: ScheduleType
  s_param :: int
  s_amount :: rat
  s_note :: string
  s_autoAllocate :: bool
  s_nextDate :: date
  s_category :: string

record InterestEntry =
  ie_categoryNormalized :: string
  ie_ratePct :: rat
  ie_monthly :: bool
  ie_startDate :: date
  ie_lastAppliedDate :: date

record Settings =
  autoSave :: bool
  autoProcessOnStartup :: bool
  language :: string

record Account =
  balance :: rat
  txs :: "Transaction list"
  schedules :: "Schedule list"
  allocationPct :: "rat smap"
  categoryBalances :: "rat smap"
  displayNames :: "string smap"
  interestMap :: "InterestEntry smap"
  settings :: Settings

text \<open>The constructor \<^verbatim>\<open>Account()\<close>, with the default member initialisers.\<close>

definition Account_empty :: Account where
  "Account_empty = \<lparr> balance = 0, txs = [], schedules = [], allocationPct = [],
     categoryBalances = [], displayNames = [], interestMap = [],
     settings = \<lparr> autoSave = False, autoProcessOnStartup = False, language = ''EN'' \<rparr> \<rparr>"

fun Account_defaults :: "(string \<times> rat) list \<Rightarrow> Account \<Rightarrow> Account" where
  "Account_defaults [] acc = acc"
| "Account_defaults ((name, pct) # ps) acc =
     (let nk = normalizeKey name in
      Account_defaults ps
        (acc\<lparr> allocationPct := map_put nk pct (allocationPct acc),
              displayNames := map_put nk name (displayNames acc),
              categoryBalances := map_put nk 0 (categoryBalances acc) \<rparr>))"

definition Account_new :: Account where
  "Account_new = Account_defaults
     [(''Emergency'', 20), (''Entertainment'', 10), (''Saving'', 20), (''Other'', 50)]
     Account_empty"

definition ensureCategoryExists :: "string \<Rightarrow> Account \<Rightarrow> Account" where
  "ensureCategoryExists displayRaw acc =
     (let display = sanitizeDisplayName displayRaw;
          nk = normalizeKey display
      in acc\<lparr> displayNames := put_if_absent nk display (displayNames acc),
               categoryBalances := put_if_absent nk 0 (categoryBalances acc),
               allocationPct := put_if_absent nk 0 (allocationPct acc) \<rparr>)"

definition addManualTransaction ::
  "date \<Rightarrow> rat \<Rightarrow> string \<Rightarrow> string \<Rightarrow> Account \<Rightarrow> Account" where
  "addManualTransaction dt amount categoryRaw note acc =
     (let catDisplay = (if categoryRaw = [] then ''Other'' else sanitizeDisplayName categoryRaw);
          nk = normalizeKey catDisplay;
          dn1 = put_if_absent nk catDisplay (displayNames acc);
          (shown, dn2) = map_index nk [] dn1;
          t = \<lparr> tx_date = dt, tx_amount = amount, tx_category = shown, tx_note = note \<rparr>;
          cb1 = put_if_absent nk 0 (categoryBalances acc)
      in acc\<lparr> displayNames := dn2,
               txs := txs acc @ [t],
               balance := balance acc + amount,
               categoryBalances := map_plus nk amount cb1 \<rparr>)"

fun setAllocationLoop :: "(string \<times> rat) list \<Rightarrow> Account \<Rightarrow> Account" where
  "setAllocationLoop [] acc = acc"
| "setAllocationLoop ((name, pct) # ps) acc =
     (let dk = sanitizeDisplayName name;
          nk = normalizeKey dk
      in setAllocationLoop ps
           (acc\<lparr> allocationPct := map_put nk pct (allocationPct acc),
                 displayNames := put_if_absent nk dk (displayNames acc),
                 categoryBalances := put_if_absent nk 0 (categoryBalances acc) \<rparr>))"

definition setAllocation :: "rat smap \<Rightarrow> Account \<Rightarrow> Account" where
  "setAllocation newAlloc acc = setAllocationLoop newAlloc (acc\<lparr> allocationPct := [] \<rparr>)"

text \<open>
  The second loop of \<^verbatim>\<open>allocateAmount\<close>. It runs over the entries of \<^verbatim>\<open>allocationPct\<close>, which
  the body does not change, and posts one share per entry.
\<close>

fun allocateShares ::
  "date \<Rightarrow> rat \<Rightarrow> string \<Rightarrow> rat \<Rightarrow> (string \<times> rat) list \<Rightarrow> Account \<Rightarrow> Account" where
  "allocateShares dt amount note totalPct [] acc = acc"
| "allocateShares dt amount note totalPct ((k, pct) # ps) acc =
     (let share = amount * (pct / totalPct);
          cb = map_plus k share (categoryBalances acc);
          (shown, dn) = map_index k [] (displayNames acc);
          catDisplay = (if shown = [] then k else shown);
          t = \<lparr> tx_date = dt, tx_amount = share, tx_category = catDisplay,
                tx_note = note @ '' (auto alloc)'' \<rparr>
      in allocateShares dt amount note totalPct ps
           (acc\<lparr> categoryBalances := cb, displayNames := dn,
                 txs := txs acc @ [t], balance := balance acc + share \<rparr>))"

definition totalPercent :: "rat smap \<Rightarrow> rat" where
  "totalPercent m = foldl (\<lambda>s p. s + snd p) 0 m"

definition allocateAmount :: "date \<Rightarrow> rat \<Rightarrow> string \<Rightarrow> Account \<Rightarrow> Account" where
  "allocateAmount dt amount note acc =
     (let totalPct = totalPercent (allocationPct acc) in
      if totalPct \<le> 1 / 1000000 then
        (let nk = normalizeKey ''Other'';
             dn1 = put_if_absent nk ''Other'' (displayNames acc);
             cb = map_plus nk amount (categoryBalances acc);
             (shown, dn2) = map_index nk [] dn1;
             t = \<lparr> tx_date = dt, tx_amount = amount, tx_category = shown,
                   tx_note = note @ '' (auto alloc fallback)'' \<rparr>
         in acc\<lparr> displayNames := dn2, categoryBalances := cb,
                  txs := txs acc @ [t], balance := balance acc + amount \<rparr>)
      else allocateShares dt amount note totalPct (allocationPct acc) acc)"

section \<open>Schedule processing\<close>

text \<open>
  The \<^verbatim>\<open>while\<close> loop of \<^verbatim>\<open>processSchedulesUpTo\<close> for one schedule \<open>s\<close>, with its counter
  \<^verbatim>\<open>guard\<close>. The loop body changes the schedule's next date and, through
  \<^verbatim>\<open>allocateAmount\<close> and \<^verbatim>\<open>addManualTransaction\<close>, the rest of the account; neither of the two
  reads or writes the list of schedules, so the schedule is passed beside the account and
  written back by \<open>processSchedulesUpTo\<close>. The parameter of a schedule is a C \<^verbatim>\<open>int\<close>, modelled
  by \<^typ>\<open>int\<close>: the sum \<^verbatim>\<open>tm_mday + days\<close> in \<^verbatim>\<open>addDays\<close> is taken not to overflow.
\<close>

function scheduleWhile :: "date \<Rightarrow> nat \<Rightarrow> Schedule \<Rightarrow> Account \<Rightarrow> Schedule \<times> Account" where
  "scheduleWhile upTo guard s acc =
     (if date_le (s_nextDate s) upTo \<and> guard < 10000 then
        (let acc' =
              (if s_autoAllocate s \<and> s_amount s > 0 then
                 allocateAmount (s_nextDate s) (s_amount s) (''Scheduled: '' @ s_note s) acc
               else
                 (let cat = (if s_category s = [] then ''Other'' else s_category s)
                  in addManualTransaction (s_nextDate s) (s_amount s) cat
                       (''Scheduled: '' @ s_note s) acc));
             s' = (if s_type s = EveryXDays
                   then s\<lparr> s_nextDate := addDays (s_nextDate s) (s_param s) \<rparr>
                   else s\<lparr> s_nextDate := nextMonthlyOn (s_nextDate s) (s_param s) \<rparr>)
         in scheduleWhile upTo (guard + 1) s' acc')
      else (s, acc))"
  by pat_completeness auto
termination
  by (relation "measure (\<lambda>(upTo, guard, s, acc). 10000 - guard)") auto

declare scheduleWhile.simps [simp del]

fun scheduleFor :: "date \<Rightarrow> Schedule list \<Rightarrow> Account \<Rightarrow> Schedule list \<times> Account" where
  "scheduleFor upTo [] acc = ([], acc)"
| "scheduleFor upTo (s # ss) acc =
     (if s_type s = EveryXDays \<and> s_param s \<le> 0 then
        (let (ss', acc') = scheduleFor upTo ss acc in (s # ss', acc'))
      else if s_type s = MonthlyDay \<and> (s_param s < 1 \<or> s_param s > 31) then
        (let (ss', acc') = scheduleFor upTo ss acc in (s # ss', acc'))
      else
        (let (s', acc1) = scheduleWhile upTo 0 s acc;
             (ss', acc2) = scheduleFor upTo ss acc1
         in (s' # ss', acc2)))"

definition processSchedulesUpTo :: "date \<Rightarrow> Account \<Rightarrow> Account" where
  "processSchedulesUpTo upTo acc =
     (let (ss, acc') = scheduleFor upTo (schedules acc) acc in acc'\<lparr> schedules := ss \<rparr>)"

section \<open>Interest\<close>

text \<open>
  The balance of category \<open>nk\<close> in the working transactions up to \<open>applyDate\<close>, as the innermost
  loop of \<^verbatim>\<open>applyInterestUpTo\<close> sums it.
\<close>

fun categoryBalanceAt :: "string \<Rightarrow> date \<Rightarrow> Transaction list \<Rightarrow> rat \<Rightarrow> rat" where
  "categoryBalanceAt nk applyDate [] bal = bal"
| "categoryBalanceAt nk applyDate (t # ts) bal =
     (if normalizeKey (tx_category t) \<noteq> nk then categoryBalanceAt nk applyDate ts bal
      else if date_le (tx_date t) applyDate
           then categoryBalanceAt nk applyDate ts (bal + tx_amount t)
           else categoryBalanceAt nk applyDate ts bal)"

text \<open>
  The loop over the months \<^verbatim>\<open>m = 0 .. months - 1\<close> for one interest entry. Its state is the
  account and the working transaction list.
\<close>

function interestMonths ::
  "InterestEntry \<Rightarrow> date \<Rightarrow> rat \<Rightarrow> int \<Rightarrow> int \<Rightarrow> Account \<times> Transaction list
     \<Rightarrow> Account \<times> Transaction list" where
  "interestMonths ie fromDate monthlyRate months m (acc, workingTxs) =
     (if m < months then
        (let applyDate = addMonths fromDate m;
             nk = ie_categoryNormalized ie;
             bal = categoryBalanceAt nk applyDate workingTxs 0
         in if bal \<le> 0 then
              interestMonths ie fromDate monthlyRate months (m + 1) (acc, workingTxs)
            else
              (let interest = bal * monthlyRate in
               if interest \<noteq> 0 then
                 (let display = (if map_has nk (displayNames acc)
                                 then fst (map_index nk [] (displayNames acc)) else nk);
                      itx = \<lparr> tx_date = applyDate, tx_amount = interest, tx_category = display,
                              tx_note = ''Interest ('' @ (if ie_monthly ie then ''monthly''
                                           else ''annual/converted to monthly'') @ '')'' \<rparr>
                  in interestMonths ie fromDate monthlyRate months (m + 1)
                       (acc\<lparr> txs := txs acc @ [itx],
                             categoryBalances := map_plus nk interest (categoryBalances acc),
                             balance := balance acc + interest \<rparr>,
                        workingTxs @ [itx]))
               else interestMonths ie fromDate monthlyRate months (m + 1) (acc, workingTxs)))
      else (acc, workingTxs))"
  by pat_completeness auto
termination
  by (relation "measure (\<lambda>(ie, fromDate, monthlyRate, months, m, st). nat (months - m))") auto

declare interestMonths.simps [simp del]

text \<open>
  The loop over the entries of \<^verbatim>\<open>interestMap\<close>. The entries are updated in place; the loop
  body reads and writes the other members of the account only, so the entries are passed
  beside the account and written back by \<open>applyInterestUpTo\<close>.
\<close>

fun interestFor ::
  "date \<Rightarrow> InterestEntry smap \<Rightarrow> Account \<times> Transaction list
     \<Rightarrow> InterestEntry smap \<times> Account \<times> Transaction list" where
  "interestFor upTo [] st = ([], st)"
| "interestFor upTo ((k, ie) # rest) st =
     (if date_lt upTo (ie_startDate ie) then
        (let (rest', st') = interestFor upTo rest st in ((k, ie) # rest', st'))
      else
        (let fromDate = (if date_lt (ie_lastAppliedDate ie) (ie_startDate ie)
                         then ie_startDate ie else ie_lastAppliedDate ie);
             months = monthsBetweenInclusive fromDate upTo
         in if months \<le> 0 then
              (let (rest', st') = interestFor upTo rest st in ((k, ie) # rest', st'))
            else
              (let monthlyRate = (if ie_monthly ie then ie_ratePct ie / 100
                                  else (ie_ratePct ie / 100) / 12);
                   st1 = interestMonths ie fromDate monthlyRate months 0 st;
                   last1 = addMonths fromDate months;
                   last2 = (if date_lt upTo last1 then upTo else last1);
                   (rest', st2) = interestFor upTo rest st1
               in ((k, ie\<lparr> ie_lastAppliedDate := last2 \<rparr>) # rest', st2))))"

definition applyInterestUpTo :: "date \<Rightarrow> Account \<Rightarrow> Account" where
  "applyInterestUpTo upTo acc =
     (if interestMap acc = [] then acc
      else (let (im, acc', workingTxs) = interestFor upTo (interestMap acc) (acc, txs acc)
            in acc'\<lparr> interestMap := im \<rparr>))"

section \<open>Loading the store file\<close>

text \<open>
  What \<^verbatim>\<open>loadFromFile\<close> takes from the C and C++ libraries is a parameter of the model:
  \<open>stod\<close> and \<open>stoi\<close> (\<open>None\<close> when the library function throws), \<open>get_time\<close> for the
  extraction \<^verbatim>\<open>ss >> get_time(&t, "%Y-%m-%d")\<close> (the year, month and day it stores, \<open>None\<close>
  when the stream fails) and \<open>today\<close> for the date of the system clock. \<^verbatim>\<open>tryParseDate\<close>
  passes what \<^verbatim>\<open>get_time\<close> stored through \<^verbatim>\<open>mktime\<close>; the failure of \<^verbatim>\<open>mktime\<close> on a date
  that \<^verbatim>\<open>time_t\<close> cannot hold is not modelled.
\<close>

record libc =
  stod :: "string \<Rightarrow> rat option"
  stoi :: "string \<Rightarrow> int option"
  get_time :: "string \<Rightarrow> (int \<times> int \<times> int) option"
  today :: date

definition tryParseDate :: "libc \<Rightarrow> string \<Rightarrow> date option" where
  "tryParseDate env s =
     (if s = [] then None
      else (case get_time env s of
              None \<Rightarrow> None
            | Some (y, m, d) \<Rightarrow> Some (mktime_date y m d)))"

text \<open>
  The files that can be opened for reading, by path, with their contents; and the lines
  \<^verbatim>\<open>getline\<close> delivers from a content.
\<close>

type_synonym filesystem = "string \<Rightarrow> string option"

fun getlines :: "string \<Rightarrow> string \<Rightarrow> string list" where
  "getlines cur [] = (if cur = [] then [] else [cur])"
| "getlines cur (c # cs) =
     (if c = newline then cur # getlines [] cs else getlines (cur @ [c]) cs)"

text \<open>\<^verbatim>\<open>std::filesystem::path(filename).filename()\<close>: what follows the last separator.\<close>

definition path_filename :: "string \<Rightarrow> string" where
  "path_filename p = rev (takeWhile (\<lambda>c. c \<noteq> CHR ''/'') (rev p))"

datatype Section = NoSection | SettingsSec | InterestSec | Alloc | Cats | Scheds | Txs

record Loader =
  sec :: Section
  savedBalance :: rat
  hadSavedBalance :: bool
  account :: Account

definition isTrue :: "string \<Rightarrow> bool" where
  "isTrue v = (v = ''1'' \<or> v = ''true'')"

definition loadSettingsLine :: "string \<Rightarrow> Account \<Rightarrow> Account" where
  "loadSettingsLine line acc =
     (let kvp = splitScan [] [] False line in
      if length kvp \<ge> 2 then
        (let key = kvp ! 0; val = kvp ! 1 in
         if key = ''AUTO_SAVE'' then acc\<lparr> settings := (settings acc)\<lparr> autoSave := isTrue val \<rparr> \<rparr>
         else if key = ''AUTO_PROCESS_STARTUP''
           then acc\<lparr> settings := (settings acc)\<lparr> autoProcessOnStartup := isTrue val \<rparr> \<rparr>
         else if key = ''LANGUAGE'' then acc\<lparr> settings := (settings acc)\<lparr> language := val \<rparr> \<rparr>
         else acc)
      else acc)"

definition loadInterestLine :: "libc \<Rightarrow> string \<Rightarrow> Account \<Rightarrow> Account" where
  "loadInterestLine env line acc =
     (let parts = splitEscaped line in
      if length parts \<ge> 5 then
        (let display = parts ! 0 in
         case stod env (parts ! 1) of
           None \<Rightarrow> acc
         | Some rate \<Rightarrow>
             (let monthly = isTrue (parts ! 2);
                  startd = (case tryParseDate env (parts ! 3) of Some d \<Rightarrow> d | None \<Rightarrow> today env);
                  lastd = (case tryParseDate env (parts ! 4) of Some d \<Rightarrow> d | None \<Rightarrow> startd);
                  nk = normalizeKey display;
                  ie = \<lparr> ie_categoryNormalized = nk, ie_ratePct = rate, ie_monthly = monthly,
                         ie_startDate = startd, ie_lastAppliedDate = lastd \<rparr>
              in acc\<lparr> interestMap := map_put nk ie (interestMap acc),
                       displayNames := put_if_absent nk display (displayNames acc) \<rparr>))
      else acc)"

definition loadAllocLine :: "libc \<Rightarrow> string \<Rightarrow> Account \<Rightarrow> Account" where
  "loadAllocLine env line acc =
     (let parts = splitEscaped line in
      if length parts \<ge> 2 then
        (let display = parts ! 0 in
         case stod env (parts ! 1) of
           None \<Rightarrow> acc
         | Some v \<Rightarrow>
             (let nk = normalizeKey display
              in acc\<lparr> allocationPct := map_put nk v (allocationPct acc),
                       displayNames := put_if_absent nk display (displayNames acc) \<rparr>))
      else acc)"

definition loadCatsLine :: "libc \<Rightarrow> string \<Rightarrow> Account \<Rightarrow> Account" where
  "loadCatsLine env line acc =
     (let parts = splitEscaped line in
      if length parts \<ge> 2 then
        (let display = parts ! 0 in
         case stod env (parts ! 1) of
           None \<Rightarrow> acc
         | Some v \<Rightarrow>
             (let nk = normalizeKey display
              in acc\<lparr> categoryBalances := map_put nk v (categoryBalances acc),
                       displayNames := put_if_absent nk display (displayNames acc) \<rparr>))
      else acc)"

definition loadSchedLine :: "libc \<Rightarrow> string \<Rightarrow> Account \<Rightarrow> Account" where
  "loadSchedLine env line acc =
     (let parts = splitEscaped line in
      if length parts \<ge> 7 then
        (let ty = (if parts ! 0 = ''E'' then EveryXDays else MonthlyDay) in
         case stoi env (parts ! 1) of
           None \<Rightarrow> acc
         | Some param \<Rightarrow>
            (case stod env (parts ! 2) of
               None \<Rightarrow> acc
             | Some amount \<Rightarrow>
                (case tryParseDate env (parts ! 4) of
                   None \<Rightarrow> acc
                 | Some nd \<Rightarrow>
                    (let s = \<lparr> s_type = ty, s_param = param, s_amount = amount,
                               s_note = parts ! 6, s_autoAllocate = isTrue (parts ! 3),
                               s_nextDate = nd, s_category = parts ! 5 \<rparr>
                     in if ty = EveryXDays \<and> param \<le> 0 then acc
                        else if ty = MonthlyDay \<and> (param < 1 \<or> param > 31) then acc
                        else acc\<lparr> schedules := schedules acc @ [s] \<rparr>))))
      else acc)"

definition loadTxLine :: "libc \<Rightarrow> string \<Rightarrow> Account \<Rightarrow> Account" where
  "loadTxLine env line acc =
     (let parts = splitEscaped line in
      if length parts \<ge> 4 then
        (case tryParseDate env (parts ! 0) of
           None \<Rightarrow> acc
         | Some dt \<Rightarrow>
            (case stod env (parts ! 1) of
               None \<Rightarrow> acc
             | Some amount \<Rightarrow>
                (let t = \<lparr> tx_date = dt, tx_amount = amount, tx_category = parts ! 2,
                           tx_note = parts ! 3 \<rparr>;
                     nk = normalizeKey (tx_category t)
                 in acc\<lparr> txs := txs acc @ [t],
                          displayNames := put_if_absent nk (tx_category t) (displayNames acc) \<rparr>)))
      else acc)"

text \<open>One turn of the \<^verbatim>\<open>while (getline(ifs, line))\<close> loop.\<close>

definition loadLine :: "libc \<Rightarrow> Loader \<Rightarrow> string \<Rightarrow> Loader" where
  "loadLine env st line =
     (if line = ''SETTINGS'' then st\<lparr> sec := SettingsSec \<rparr>
      else if line = ''INTERESTS'' then st\<lparr> sec := InterestSec \<rparr>
      else if line = ''ALLOCATIONS'' then st\<lparr> sec := Alloc \<rparr>
      else if line = ''CATEGORIES'' then st\<lparr> sec := Cats \<rparr>
      else if line = ''SCHEDULES'' then st\<lparr> sec := Scheds \<rparr>
      else if line = ''TXS'' then st\<lparr> sec := Txs \<rparr>
      else if take 8 line = ''BALANCE '' then
        (case stod env (drop 8 line) of
           Some v \<Rightarrow> st\<lparr> savedBalance := v, hadSavedBalance := True \<rparr>
         | None \<Rightarrow> st)
      else
        (case sec st of
           SettingsSec \<Rightarrow> st\<lparr> account := loadSettingsLine line (account st) \<rparr>
         | InterestSec \<Rightarrow> st\<lparr> account := loadInterestLine env line (account st) \<rparr>
         | Alloc \<Rightarrow> st\<lparr> account := loadAllocLine env line (account st) \<rparr>
         | Cats \<Rightarrow> st\<lparr> account := loadCatsLine env line (account st) \<rparr>
         | Scheds \<Rightarrow> st\<lparr> account := loadSchedLine env line (account st) \<rparr>
         | Txs \<Rightarrow> st\<lparr> account := loadTxLine env line (account st) \<rparr>
         | NoSection \<Rightarrow> st))"

text \<open>The three loops that recompute the category balances after the file is read.\<close>

fun recomputeFromTxs ::
  "Transaction list \<Rightarrow> rat smap \<times> string smap \<Rightarrow> rat smap \<times> string smap" where
  "recomputeFromTxs [] st = st"
| "recomputeFromTxs (t # ts) (rc, dn) =
     (let nk = normalizeKey (tx_category t)
      in recomputeFromTxs ts
           (map_plus nk (tx_amount t) (put_if_absent nk 0 rc),
            put_if_absent nk (tx_category t) dn))"

fun keepStoredCats :: "(string \<times> rat) list \<Rightarrow> rat smap \<Rightarrow> rat smap" where
  "keepStoredCats [] rc = rc"
| "keepStoredCats ((k, v) # ps) rc = keepStoredCats ps (put_if_absent k v rc)"

fun coverAllocations ::
  "(string \<times> rat) list \<Rightarrow> string smap \<times> rat smap \<Rightarrow> string smap \<times> rat smap" where
  "coverAllocations [] st = st"
| "coverAllocations ((k, v) # ps) (dn, cb) =
     coverAllocations ps (put_if_absent k k dn, put_if_absent k 0 cb)"

definition sumAmounts :: "Transaction list \<Rightarrow> rat" where
  "sumAmounts ts = foldl (\<lambda>s t. s + tx_amount t) 0 ts"

definition finishLoad :: "Loader \<Rightarrow> Account" where
  "finishLoad st =
     (let acc = account st;
          (rc1, dn1) = recomputeFromTxs (txs acc) ([], displayNames acc);
          rc2 = keepStoredCats (categoryBalances acc) rc1;
          (dn2, cb2) = coverAllocations (allocationPct acc) (dn1, rc2);
          computedBalance = sumAmounts (txs acc);
          bal = (if computedBalance = 0 \<and> hadSavedBalance st then savedBalance st
                 else computedBalance)
      in acc\<lparr> categoryBalances := cb2, displayNames := dn2, balance := bal \<rparr>)"

text \<open>
  What \<^verbatim>\<open>loadFromFile\<close> does once a file is open: it clears the ledger, resets the
  settings, reads the lines and recomputes the balances.
\<close>

definition loadContent :: "libc \<Rightarrow> string \<Rightarrow> Account \<Rightarrow> Account" where
  "loadContent env content acc =
     (let acc0 = acc\<lparr> allocationPct := [], categoryBalances := [], schedules := [], txs := [],
                      displayNames := [], interestMap := [],
                      settings := \<lparr> autoSave = False, autoProcessOnStartup = False,
                                    language = ''EN'' \<rparr> \<rparr>;
          st0 = \<lparr> sec = NoSection, savedBalance = 0, hadSavedBalance = False, account = acc0 \<rparr>
      in finishLoad (foldl (loadLine env) st0 (getlines [] content)))"

definition loadFromFile :: "libc \<Rightarrow> filesystem \<Rightarrow> string \<Rightarrow> Account \<Rightarrow> bool \<times> Account" where
  "loadFromFile env fs filename acc =
     (case fs filename of
        Some content \<Rightarrow> (True, loadContent env content acc)
      | None \<Rightarrow>
          (let base = path_filename filename in
           case (if base \<noteq> filename then fs base else None) of
             Some content \<Rightarrow> (True, loadContent env content acc)
           | None \<Rightarrow> (False, acc)))"

text \<open>
  An instance of the library functions on plain input, to run the model on a concrete
  file: decimal numerals with an optional sign and fraction, and dates written
  \<^verbatim>\<open>YYYY-MM-DD\<close>.
\<close>

definition isdigit_c :: "char \<Rightarrow> bool" where
  "isdigit_c c = (let n = (of_char c :: nat) in 48 \<le> n \<and> n \<le> 57)"

definition digitsValue :: "string \<Rightarrow> nat" where
  "digitsValue ds = foldl (\<lambda>n c. 10 * n + (of_char c - 48)) 0 ds"

definition signOf :: "string \<Rightarrow> bool \<times> string" where
  "signOf s = (case s of
                 [] \<Rightarrow> (False, [])
               | c # r \<Rightarrow> if c = CHR ''-'' then (True, r)
                          else if c = CHR ''+'' then (False, r) else (False, s))"

definition stod_plain :: "string \<Rightarrow> rat option" where
  "stod_plain s =
     (let (neg, s2) = signOf (dropWhile isspace_c s);
          ip = takeWhile isdigit_c s2;
          r = dropWhile isdigit_c s2;
          fp = (case r of [] \<Rightarrow> [] | c # r' \<Rightarrow> if c = CHR ''.'' then takeWhile isdigit_c r' else []);
          v = of_nat (digitsValue ip) + of_nat (digitsValue fp) / 10 ^ length fp
      in if ip = [] \<and> fp = [] then None else Some (if neg then - v else v))"

definition stoi_plain :: "string \<Rightarrow> int option" where
  "stoi_plain s =
     (let (neg, s2) = signOf (dropWhile isspace_c s);
          ip = takeWhile isdigit_c s2;
          v = (if neg then - int (digitsValue ip) else int (digitsValue ip))
      in if ip = [] \<or> v < - 2147483648 \<or> v > 2147483647 then None else Some v)"

definition get_time_plain :: "string \<Rightarrow> (int \<times> int \<times> int) option" where
  "get_time_plain s =
     (let y = take 4 s; m = take 2 (drop 5 s); d = take 2 (drop 8 s);
          mv = int (digitsValue m); dv = int (digitsValue d)
      in if length s \<ge> 10 \<and> s ! 4 = CHR ''-'' \<and> s ! 7 = CHR ''-''
            \<and> list_all isdigit_c (y @ m @ d) \<and> 1 \<le> mv \<and> mv \<le> 12 \<and> 1 \<le> dv \<and> dv \<le> 31
         then Some (int (digitsValue y), mv, dv) else None)"

definition libc_plain :: libc where
  "libc_plain = \<lparr> stod = stod_plain, stoi = stoi_plain, get_time = get_time_plain,
                  today = Date 2024 1 1 \<rparr>"

section \<open>Properties and scenarios\<close>

text \<open>
  The invariant of the three category maps as the specification words it: a key of one map
  is a key of the other two.
\<close>

definition maps_aligned :: "Account \<Rightarrow> bool" where
  "maps_aligned acc =
     (keys (displayNames acc) = keys (categoryBalances acc)
      \<and> keys (categoryBalances acc) = keys (allocationPct acc))"

text \<open>
  The invariant the operations keep: the allocation keys are category-balance keys, these
  are display-name keys, and the category of every interest entry has a display name.
\<close>

definition interestCategories :: "Account \<Rightarrow> string set" where
  "interestCategories acc = (\<lambda>p. ie_categoryNormalized (snd p)) ` set (interestMap acc)"

definition maps_covered :: "Account \<Rightarrow> bool" where
  "maps_covered acc =
     (keys (allocationPct acc) \<subseteq> keys (categoryBalances acc)
      \<and> keys (categoryBalances acc) \<subseteq> keys (displayNames acc)
      \<and> interestCategories acc \<subseteq> keys (displayNames acc))"

text \<open>The part of it that \<^verbatim>\<open>loadFromFile\<close> keeps while it reads the lines.\<close>

definition names_cover :: "Account \<Rightarrow> bool" where
  "names_cover acc =
     (keys (categoryBalances acc) \<subseteq> keys (displayNames acc)
      \<and> interestCategories acc \<subseteq> keys (displayNames acc))"

text \<open>
  What \<^verbatim>\<open>applyInterestUpTo\<close> does to one interest entry: the anchor is the later of the
  last-applied and the start date; the entry is skipped when it starts after the target
  date or no month is counted from the anchor; otherwise only its last-applied date
  changes, to a date that is not after the target date.
\<close>

definition rule_anchor :: "InterestEntry \<Rightarrow> date" where
  "rule_anchor ie = (if date_lt (ie_lastAppliedDate ie) (ie_startDate ie)
                     then ie_startDate ie else ie_lastAppliedDate ie)"

definition rule_skipped :: "date \<Rightarrow> InterestEntry \<Rightarrow> bool" where
  "rule_skipped upTo ie =
     (date_lt upTo (ie_startDate ie) \<or> monthsBetweenInclusive (rule_anchor ie) upTo \<le> 0)"

definition rule_advanced ::
  "date \<Rightarrow> string \<times> InterestEntry \<Rightarrow> string \<times> InterestEntry \<Rightarrow> bool" where
  "rule_advanced upTo p q =
     (fst q = fst p
      \<and> snd q = (snd p)\<lparr> ie_lastAppliedDate := ie_lastAppliedDate (snd q) \<rparr>
      \<and> (if rule_skipped upTo (snd p) then snd q = snd p
         else date_le (ie_lastAppliedDate (snd q)) upTo))"

text \<open>The total balance agrees with the transaction log.\<close>

definition balanced :: "Account \<Rightarrow> bool" where
  "balanced acc = (balance acc = sumAmounts (txs acc))"

text \<open>
  What an operation appended to the transaction log, and the statement that its change of
  the total balance is the sum of the appended amounts.
\<close>

definition appended :: "Account \<Rightarrow> Account \<Rightarrow> Transaction list" where
  "appended acc acc' = drop (length (txs acc)) (txs acc')"

definition posts_change :: "Account \<Rightarrow> Account \<Rightarrow> bool" where
  "posts_change acc acc' =
     (txs acc' = txs acc @ appended acc acc'
      \<and> balance acc' = balance acc + sumAmounts (appended acc acc'))"

text \<open>
  The interest scenario: a fresh account, one manual transaction of 100 in "Other" on
  2024-01-01, and one monthly rule of 1 percent on that category, started and last applied
  on 2024-01-01.
\<close>

definition interest_rule :: InterestEntry where
  "interest_rule = \<lparr> ie_categoryNormalized = ''other'', ie_ratePct = 1, ie_monthly = True,
     ie_startDate = Date 2024 1 1, ie_lastAppliedDate = Date 2024 1 1 \<rparr>"

definition interest_account :: Account where
  "interest_account =
     (addManualTransaction (Date 2024 1 1) 100 ''Other'' ''Initial income'' Account_new)
       \<lparr> interestMap := [(''other'', interest_rule)] \<rparr>"

definition interest_tx :: "date \<Rightarrow> rat \<Rightarrow> Transaction" where
  "interest_tx d a = \<lparr> tx_date = d, tx_amount = a, tx_category = ''Other'',
     tx_note = ''Interest (monthly)'' \<rparr>"

text \<open>The same account with a rule that starts in 2025.\<close>

definition future_rule_account :: Account where
  "future_rule_account = interest_account
     \<lparr> interestMap := [(''other'', interest_rule
          \<lparr> ie_startDate := Date 2025 1 1, ie_lastAppliedDate := Date 2025 1 1 \<rparr>)] \<rparr>"

text \<open>
  The schedule scenario: a fresh account with one schedule, monthly on day 31, next due on
  2024-01-31, posting 10 directly to "Other".
\<close>

definition monthly31 :: Schedule where
  "monthly31 = \<lparr> s_type = MonthlyDay, s_param = 31, s_amount = 10, s_note = ''rent'',
     s_autoAllocate = False, s_nextDate = Date 2024 1 31, s_category = ''Other'' \<rparr>"

definition monthly31_account :: Account where
  "monthly31_account = Account_new \<lparr> schedules := [monthly31] \<rparr>"

text \<open>
  A store file with a stored balance of 50 and two transactions, +100 and -100, and the
  file system that holds it under the name \<^verbatim>\<open>finance_save.txt\<close>.
\<close>

definition zero_sum_store :: string where
  "zero_sum_store =
     ''BALANCE 50'' @ [newline] @
     ''TXS'' @ [newline] @
     ''2024-01-01|100|Other|in'' @ [newline] @
     ''2024-01-02|-100|Other|out'' @ [newline]"

definition zero_sum_fs :: filesystem where
  "zero_sum_fs p = (if p = ''finance_save.txt'' then Some zero_sum_store else None)"

definition no_files :: filesystem where
  "no_files p = None"

section \<open>Auxiliary facts\<close>

subsection \<open>Maps and sums\<close>

lemma keys_map_put [simp]: "keys (map_put k v m) = insert k (keys m)"
  by (induction k v m rule: map_put.induct) (auto simp: keys_def split: if_splits)

lemma map_has_keys: "map_has k m \<longleftrightarrow> k \<in> keys m"
  by (simp add: map_has_def keys_def map_of_eq_None_iff)

lemma keys_put_if_absent [simp]: "keys (put_if_absent k v m) = insert k (keys m)"
  by (auto simp: put_if_absent_def map_has_keys)

lemma keys_map_index [simp]: "keys (snd (map_index k d m)) = insert k (keys m)"
proof (cases "map_of m k")
  case None
  then show ?thesis by (simp add: map_index_def)
next
  case (Some v)
  then have "k \<in> keys m" using map_has_keys [of k m] by (simp add: map_has_def)
  with Some show ?thesis by (auto simp: map_index_def)
qed

lemma keys_map_plus [simp]: "keys (map_plus k x m) = insert k (keys m)"
proof -
  obtain v m' where vm: "map_index k 0 m = (v, m')" by (cases "map_index k 0 m")
  then have "keys m' = insert k (keys m)" using keys_map_index [of k 0 m] by simp
  with vm show ?thesis by (simp add: map_plus_def)
qed

lemma sumAmounts_sum_list: "sumAmounts ts = sum_list (map tx_amount ts)"
proof -
  have "foldl (\<lambda>s t. s + tx_amount t) a ts = a + sum_list (map tx_amount ts)" for a
    by (induction ts arbitrary: a) (simp_all add: add.assoc)
  then show ?thesis by (simp add: sumAmounts_def)
qed

lemma sumAmounts_append [simp]: "sumAmounts (xs @ ys) = sumAmounts xs + sumAmounts ys"
  by (simp add: sumAmounts_sum_list)

lemma sumAmounts_Nil [simp]: "sumAmounts [] = 0"
  by (simp add: sumAmounts_def)

lemma sumAmounts_single [simp]: "sumAmounts [t] = tx_amount t"
  by (simp add: sumAmounts_def)

lemma totalPercent_sum_list: "totalPercent m = sum_list (map snd m)"
proof -
  have "foldl (\<lambda>s p. s + snd p) a m = a + sum_list (map snd m)" for a :: rat
    by (induction m arbitrary: a) (simp_all add: add.assoc)
  then show ?thesis by (simp add: totalPercent_def)
qed

lemma addManual_txs:
  "\<exists>t. txs (addManualTransaction dt amount cat note acc) = txs acc @ [t]
        \<and> tx_amount t = amount \<and> tx_date t = dt"
  by (simp add: addManualTransaction_def Let_def split: prod.splits)

lemma addManual_balance:
  "balance (addManualTransaction dt amount cat note acc) = balance acc + amount"
  by (simp add: addManualTransaction_def Let_def split: prod.splits)

lemma allocateShares_txs:
  "\<exists>posted. txs (allocateShares dt amount note totalP ps acc) = txs acc @ posted
      \<and> map tx_amount posted = map (\<lambda>p. amount * (snd p / totalP)) ps
      \<and> map tx_date posted = map (\<lambda>p. dt) ps"
proof (induction ps arbitrary: acc)
  case Nil
  then show ?case by simp
next
  case (Cons p ps)
  obtain k pct where p: "p = (k, pct)" by (cases p)
  obtain shown dn where ix: "map_index k [] (displayNames acc) = (shown, dn)"
    by (cases "map_index k [] (displayNames acc)")
  define t where "t = \<lparr> tx_date = dt, tx_amount = amount * (pct / totalP),
      tx_category = (if shown = [] then k else shown), tx_note = note @ '' (auto alloc)'' \<rparr>"
  define acc1 where "acc1 = acc\<lparr> categoryBalances := map_plus k (amount * (pct / totalP)) (categoryBalances acc),
       displayNames := dn, txs := txs acc @ [t], balance := balance acc + amount * (pct / totalP) \<rparr>"
  have step: "allocateShares dt amount note totalP (p # ps) acc = allocateShares dt amount note totalP ps acc1"
    by (simp add: p ix Let_def acc1_def t_def)
  from Cons.IH [of acc1] obtain posted where
    P1: "txs (allocateShares dt amount note totalP ps acc1) = txs acc1 @ posted" and
    P2: "map tx_amount posted = map (\<lambda>p. amount * (snd p / totalP)) ps" and
    P3: "map tx_date posted = map (\<lambda>p. dt) ps" by blast
  have "txs (allocateShares dt amount note totalP (p # ps) acc) = txs acc @ (t # posted)"
    unfolding step using P1 by (simp add: acc1_def)
  moreover have "map tx_amount (t # posted) = map (\<lambda>p. amount * (snd p / totalP)) (p # ps)"
    using P2 by (simp add: t_def p)
  moreover have "map tx_date (t # posted) = map (\<lambda>p. dt) (p # ps)"
    using P3 by (simp add: t_def)
  ultimately show ?case by blast
qed

lemma allocateShares_balance:
  "balance (allocateShares dt amount note totalP ps acc)
     = balance acc + sum_list (map (\<lambda>p. amount * (snd p / totalP)) ps)"
proof (induction ps arbitrary: acc)
  case Nil
  then show ?case by simp
next
  case (Cons p ps)
  obtain k pct where p: "p = (k, pct)" by (cases p)
  show ?case
    by (simp add: p Let_def Cons.IH split: prod.splits)
qed


lemma allocateAmount_fallback_txs:
  assumes "totalPercent (allocationPct acc) \<le> 1 / 1000000"
  shows "\<exists>t. txs (allocateAmount dt amount note acc) = txs acc @ [t] \<and> tx_amount t = amount"
    and "balance (allocateAmount dt amount note acc) = balance acc + amount"
  using assms by (simp_all add: allocateAmount_def Let_def split: prod.splits)

subsection \<open>Loops\<close>

lemma scheduleWhile_preserves:
  assumes add: "\<And>d a c n x. P x \<Longrightarrow> P (addManualTransaction d a c n x)"
    and alloc: "\<And>d a n x. P x \<Longrightarrow> P (allocateAmount d a n x)"
  shows "P acc \<Longrightarrow> P (snd (scheduleWhile upTo g s acc))"
proof (induction "10000 - g" arbitrary: g s acc)
  case 0
  then show ?case by (subst scheduleWhile.simps) simp
next
  case (Suc n)
  show ?case
  proof (cases "date_le (s_nextDate s) upTo \<and> g < 10000")
    case False
    then show ?thesis using Suc.prems by (subst scheduleWhile.simps) auto
  next
    case True
    have n: "n = 10000 - Suc g" using Suc.hyps(2) by simp
    define acc' where "acc' =
       (if s_autoAllocate s \<and> s_amount s > 0 then
          allocateAmount (s_nextDate s) (s_amount s) (''Scheduled: '' @ s_note s) acc
        else addManualTransaction (s_nextDate s) (s_amount s)
               (if s_category s = [] then ''Other'' else s_category s)
               (''Scheduled: '' @ s_note s) acc)"
    define s' where "s' =
       (if s_type s = EveryXDays
        then s\<lparr> s_nextDate := addDays (s_nextDate s) (s_param s) \<rparr>
        else s\<lparr> s_nextDate := nextMonthlyOn (s_nextDate s) (s_param s) \<rparr>)"
    have eq: "scheduleWhile upTo g s acc = scheduleWhile upTo (Suc g) s' acc'"
      using True by (subst scheduleWhile.simps) (simp add: Let_def acc'_def s'_def)
    have "P acc'"
      unfolding acc'_def using Suc.prems by (auto intro: add alloc)
    then show ?thesis
      unfolding eq by (rule Suc.hyps(1) [OF n])
  qed
qed

lemma scheduleFor_preserves:
  assumes add: "\<And>d a c n x. P x \<Longrightarrow> P (addManualTransaction d a c n x)"
    and alloc: "\<And>d a n x. P x \<Longrightarrow> P (allocateAmount d a n x)"
  shows "P acc \<Longrightarrow> P (snd (scheduleFor upTo ss acc))"
proof (induction ss arbitrary: acc)
  case Nil
  then show ?case by simp
next
  case (Cons s ss)
  have w: "P (snd (scheduleWhile upTo 0 s acc))"
    by (rule scheduleWhile_preserves [where P = P]) (auto intro: add alloc Cons.prems)
  show ?case
    using Cons.IH [OF Cons.prems] Cons.IH [OF w]
    by (auto simp: Let_def split: prod.splits)
qed

lemma processSchedulesUpTo_preserves:
  assumes add: "\<And>d a c n x. P x \<Longrightarrow> P (addManualTransaction d a c n x)"
    and alloc: "\<And>d a n x. P x \<Longrightarrow> P (allocateAmount d a n x)"
    and sched: "\<And>x ss. P x \<Longrightarrow> P (x\<lparr> schedules := ss \<rparr>)"
  shows "P acc \<Longrightarrow> P (processSchedulesUpTo upTo acc)"
proof -
  assume a: "P acc"
  have "P (snd (scheduleFor upTo (schedules acc) acc))"
    by (rule scheduleFor_preserves [where P = P]) (auto intro: add alloc a)
  then show ?thesis
    by (auto simp: processSchedulesUpTo_def split: prod.splits intro: sched)
qed

lemma interestMonths_preserves:
  assumes post: "\<And>x itx. P x \<Longrightarrow>
      P (x\<lparr> txs := txs x @ [itx],
            categoryBalances := map_plus (ie_categoryNormalized ie) (tx_amount itx) (categoryBalances x),
            balance := balance x + tx_amount itx \<rparr>)"
  shows "P (fst st) \<Longrightarrow> P (fst (interestMonths ie fromDate rate months m st))"
proof (induction "nat (months - m)" arbitrary: m st)
  case 0
  obtain acc w where st: "st = (acc, w)" by (cases st)
  from 0 show ?case unfolding st by (subst interestMonths.simps) simp
next
  case (Suc n)
  obtain acc w where st: "st = (acc, w)" by (cases st)
  have n: "n = nat (months - (m + 1))" using Suc.hyps(2) by simp
  have lt: "m < months" using Suc.hyps(2) by simp
  have P: "P acc" using Suc.prems st by simp
  let ?bal = "categoryBalanceAt (ie_categoryNormalized ie) (addMonths fromDate m) w 0"
  show ?case
  proof (cases "?bal \<le> 0 \<or> ?bal * rate = 0")
    case True
    then have "interestMonths ie fromDate rate months m (acc, w)
               = interestMonths ie fromDate rate months (m + 1) (acc, w)"
      using lt by (subst interestMonths.simps) (auto simp: Let_def)
    then show ?thesis unfolding st using Suc.hyps(1) [OF n, of "(acc, w)"] P by simp
  next
    case False
    define itx where "itx = \<lparr> tx_date = addMonths fromDate m, tx_amount = ?bal * rate,
        tx_category = (if map_has (ie_categoryNormalized ie) (displayNames acc)
               then fst (map_index (ie_categoryNormalized ie) [] (displayNames acc))
               else ie_categoryNormalized ie),
        tx_note = ''Interest ('' @ (if ie_monthly ie then ''monthly''
                                           else ''annual/converted to monthly'') @ '')'' \<rparr>"
    define acc1 where "acc1 = acc\<lparr> txs := txs acc @ [itx],
            categoryBalances := map_plus (ie_categoryNormalized ie) (tx_amount itx) (categoryBalances acc),
            balance := balance acc + tx_amount itx \<rparr>"
    have P1: "P acc1" unfolding acc1_def by (rule post [OF P])
    have "interestMonths ie fromDate rate months m (acc, w)
               = interestMonths ie fromDate rate months (m + 1) (acc1, w @ [itx])"
      using lt False by (subst interestMonths.simps) (simp add: Let_def acc1_def itx_def)
    then show ?thesis unfolding st using Suc.hyps(1) [OF n, of "(acc1, w @ [itx])"] P1 by simp
  qed
qed

lemma interestFor_preserves:
  assumes post: "\<And>x itx k ie. (k, ie) \<in> set im \<Longrightarrow> P x \<Longrightarrow>
      P (x\<lparr> txs := txs x @ [itx],
            categoryBalances := map_plus (ie_categoryNormalized ie) (tx_amount itx) (categoryBalances x),
            balance := balance x + tx_amount itx \<rparr>)"
  shows "P (fst st) \<Longrightarrow> P (fst (snd (interestFor upTo im st)))"
  using post
proof (induction im arbitrary: st)
  case Nil
  then show ?case by simp
next
  case (Cons p im)
  obtain k ie where p: "p = (k, ie)" by (cases p)
  have post': "P (x\<lparr> txs := txs x @ [itx],
            categoryBalances := map_plus (ie_categoryNormalized ie') (tx_amount itx) (categoryBalances x),
            balance := balance x + tx_amount itx \<rparr>)"
    if "(k', ie') \<in> set im" "P x" for x itx k' ie'
    using that Cons.prems(2) [of k' ie' x itx] by simp
  have here: "P (x\<lparr> txs := txs x @ [itx],
            categoryBalances := map_plus (ie_categoryNormalized ie) (tx_amount itx) (categoryBalances x),
            balance := balance x + tx_amount itx \<rparr>)"
    if "P x" for x itx
    using that Cons.prems(2) [of k ie x itx] p by simp
  have skip: "P (fst (snd (interestFor upTo im st)))"
    using Cons.IH [OF Cons.prems(1) post'] by simp
  have go: "P (fst (snd (interestFor upTo im (interestMonths ie f r ms 0 st))))" for f r ms
  proof -
    have "P (fst (interestMonths ie f r ms 0 st))"
      by (rule interestMonths_preserves [where P = P]) (auto intro: here Cons.prems(1))
    then show ?thesis using Cons.IH post' by blast
  qed
  define f where "f = (if date_lt (ie_lastAppliedDate ie) (ie_startDate ie)
                         then ie_startDate ie else ie_lastAppliedDate ie)"
  define ms where "ms = monthsBetweenInclusive f upTo"
  define r where "r = (if ie_monthly ie then ie_ratePct ie / 100 else (ie_ratePct ie / 100) / 12)"
  show ?case
  proof (cases "date_lt upTo (ie_startDate ie) \<or> ms \<le> 0")
    case True
    then have "fst (snd (interestFor upTo (p # im) st)) = fst (snd (interestFor upTo im st))"
      by (auto simp: p Let_def f_def ms_def split: prod.splits)
    then show ?thesis using skip by simp
  next
    case False
    then have "fst (snd (interestFor upTo (p # im) st))
                = fst (snd (interestFor upTo im (interestMonths ie f r ms 0 st)))"
      by (auto simp: p Let_def f_def ms_def r_def split: prod.splits)
    then show ?thesis using go by simp
  qed
qed


lemma posts_changeI:
  "txs b = txs a @ ts \<Longrightarrow> balance b = balance a + sumAmounts ts \<Longrightarrow> posts_change a b"
  by (simp add: posts_change_def appended_def)

lemma posts_change_refl: "posts_change a a"
  by (simp add: posts_change_def appended_def)

lemma posts_change_trans:
  assumes "posts_change a b" and "posts_change b c"
  shows "posts_change a c"
proof -
  have "txs c = txs a @ (appended a b @ appended b c)"
    using assms by (simp add: posts_change_def)
  moreover have "balance c = balance a + sumAmounts (appended a b @ appended b c)"
    using assms by (simp add: posts_change_def)
  ultimately show ?thesis by (rule posts_changeI)
qed

lemma posts_change_balanced: "balanced a \<Longrightarrow> posts_change a b \<Longrightarrow> balanced b"
  by (simp add: balanced_def posts_change_def)

lemma addManual_posts: "posts_change acc (addManualTransaction dt amount cat note acc)"
proof -
  obtain t where "txs (addManualTransaction dt amount cat note acc) = txs acc @ [t]"
    "tx_amount t = amount" using addManual_txs by blast
  then show ?thesis
    by (intro posts_changeI [where ts = "[t]"]) (simp_all add: addManual_balance)
qed

lemma allocateAmount_posts: "posts_change acc (allocateAmount dt amount note acc)"
proof (cases "totalPercent (allocationPct acc) \<le> 1 / 1000000")
  case True
  obtain t where "txs (allocateAmount dt amount note acc) = txs acc @ [t]" "tx_amount t = amount"
    using allocateAmount_fallback_txs(1) [OF True] by blast
  then show ?thesis
    by (intro posts_changeI [where ts = "[t]"])
       (simp_all add: allocateAmount_fallback_txs(2) [OF True])
next
  case False
  let ?T = "totalPercent (allocationPct acc)"
  have eq: "allocateAmount dt amount note acc
            = allocateShares dt amount note ?T (allocationPct acc) acc"
    using False by (simp add: allocateAmount_def Let_def)
  obtain posted where
    P1: "txs (allocateShares dt amount note ?T (allocationPct acc) acc) = txs acc @ posted" and
    P2: "map tx_amount posted = map (\<lambda>p. amount * (snd p / ?T)) (allocationPct acc)"
    using allocateShares_txs by blast
  have "sumAmounts posted = sum_list (map (\<lambda>p. amount * (snd p / ?T)) (allocationPct acc))"
    by (simp only: sumAmounts_sum_list P2)
  then have "balance (allocateShares dt amount note ?T (allocationPct acc) acc)
               = balance acc + sumAmounts posted"
    by (simp only: allocateShares_balance)
  with P1 show ?thesis unfolding eq by (rule posts_changeI)
qed

lemma processSchedulesUpTo_posts: "posts_change acc (processSchedulesUpTo upTo acc)"
proof (rule processSchedulesUpTo_preserves [where P = "posts_change acc"])
  show "posts_change acc (addManualTransaction d a c n x)" if "posts_change acc x" for d a c n x
    using that addManual_posts by (rule posts_change_trans)
  show "posts_change acc (allocateAmount d a n x)" if "posts_change acc x" for d a n x
    using that allocateAmount_posts by (rule posts_change_trans)
  show "posts_change acc (x\<lparr> schedules := ss \<rparr>)" if "posts_change acc x" for x ss
    using that by (simp add: posts_change_def appended_def)
  show "posts_change acc acc" by (rule posts_change_refl)
qed

lemma applyInterestUpTo_posts: "posts_change acc (applyInterestUpTo upTo acc)"
proof (cases "interestMap acc = []")
  case True
  then show ?thesis by (simp add: applyInterestUpTo_def posts_change_refl)
next
  case False
  have step: "posts_change acc (x\<lparr> txs := txs x @ [itx],
            categoryBalances := map_plus nk (tx_amount itx) (categoryBalances x),
            balance := balance x + tx_amount itx \<rparr>)"
    if "posts_change acc x" for x itx nk
  proof (rule posts_change_trans [OF that])
    show "posts_change x (x\<lparr> txs := txs x @ [itx],
            categoryBalances := map_plus nk (tx_amount itx) (categoryBalances x),
            balance := balance x + tx_amount itx \<rparr>)"
      by (rule posts_changeI [where ts = "[itx]"]) simp_all
  qed
  have "posts_change acc (fst (snd (interestFor upTo (interestMap acc) (acc, txs acc))))"
    by (rule interestFor_preserves [where P = "posts_change acc"])
       (auto intro: step posts_change_refl)
  then show ?thesis
    using False
    by (auto simp: applyInterestUpTo_def posts_change_def appended_def split: prod.splits)
qed


subsection \<open>Category maps\<close>

lemma maps_covered_alt:
  "maps_covered acc = (keys (allocationPct acc) \<subseteq> keys (categoryBalances acc) \<and> names_cover acc)"
  by (simp add: maps_covered_def names_cover_def)

lemma keys_Nil [simp]: "keys [] = {}"
  by (simp add: keys_def)

lemma set_map_put: "set (map_put k v m) \<subseteq> insert (k, v) (set m)"
  by (induction k v m rule: map_put.induct) auto

lemma addManual_covered:
  assumes "maps_covered acc"
  shows "maps_covered (addManualTransaction dt amount cat memo acc)"
  using assms
  by (auto simp: addManualTransaction_def Let_def split_beta maps_covered_def
        interestCategories_def)

lemma allocateShares_maps:
  "allocationPct (allocateShares dt amount memo totalPct ps acc) = allocationPct acc
   \<and> interestMap (allocateShares dt amount memo totalPct ps acc) = interestMap acc
   \<and> keys (categoryBalances (allocateShares dt amount memo totalPct ps acc))
       = keys (categoryBalances acc) \<union> keys ps
   \<and> keys (displayNames (allocateShares dt amount memo totalPct ps acc))
       = keys (displayNames acc) \<union> keys ps"
proof (induction ps arbitrary: acc)
  case Nil
  then show ?case by simp
next
  case (Cons p ps)
  obtain k pct where p: "p = (k, pct)" by (cases p)
  have kp: "keys (p # ps) = insert k (keys ps)" by (simp add: keys_def p)
  show ?case
    unfolding kp by (simp add: p Let_def split_beta Cons.IH)
qed

lemma allocateAmount_covered:
  assumes "maps_covered acc"
  shows "maps_covered (allocateAmount dt amount memo acc)"
proof (cases "totalPercent (allocationPct acc) \<le> 1 / 1000000")
  case True
  then show ?thesis
    using assms
    by (auto simp: allocateAmount_def Let_def split_beta maps_covered_def interestCategories_def)
next
  case False
  then have eq: "allocateAmount dt amount memo acc
      = allocateShares dt amount memo (totalPercent (allocationPct acc)) (allocationPct acc) acc"
    by (simp add: allocateAmount_def Let_def)
  show ?thesis
    using assms unfolding eq
    by (auto simp: maps_covered_def interestCategories_def allocateShares_maps)
qed

lemma setAllocationLoop_maps:
  "interestMap (setAllocationLoop ps acc) = interestMap acc
   \<and> keys (allocationPct (setAllocationLoop ps acc))
       = keys (allocationPct acc) \<union> (\<lambda>p. normalizeKey (sanitizeDisplayName (fst p))) ` set ps
   \<and> keys (categoryBalances (setAllocationLoop ps acc))
       = keys (categoryBalances acc) \<union> (\<lambda>p. normalizeKey (sanitizeDisplayName (fst p))) ` set ps
   \<and> keys (displayNames (setAllocationLoop ps acc))
       = keys (displayNames acc) \<union> (\<lambda>p. normalizeKey (sanitizeDisplayName (fst p))) ` set ps"
proof (induction ps arbitrary: acc)
  case Nil
  then show ?case by simp
next
  case (Cons p ps)
  obtain k pct where p: "p = (k, pct)" by (cases p)
  show ?case
    by (simp add: p Let_def Cons.IH)
qed

lemma setAllocation_covered:
  assumes "maps_covered acc"
  shows "maps_covered (setAllocation newAlloc acc)"
  using assms
  by (auto simp: setAllocation_def maps_covered_def interestCategories_def setAllocationLoop_maps)

lemma processSchedulesUpTo_covered:
  assumes "maps_covered acc"
  shows "maps_covered (processSchedulesUpTo upTo acc)"
proof (rule processSchedulesUpTo_preserves [where P = maps_covered])
  show "maps_covered (x\<lparr> schedules := ss \<rparr>)" if "maps_covered x" for x ss
    using that by (simp add: maps_covered_def interestCategories_def)
qed (auto intro: addManual_covered allocateAmount_covered assms)


lemma date_le_refl [simp]: "date_le a a"
  by (simp add: date_le_def)

lemma not_date_lt_le: "\<not> date_lt a b \<Longrightarrow> date_le b a"
  by (cases a; cases b) (auto simp: date_le_def)

lemma interestFor_advanced:
  "list_all2 (rule_advanced upTo) im (fst (interestFor upTo im st))"
proof (induction im arbitrary: st)
  case Nil
  then show ?case by simp
next
  case (Cons p im)
  obtain k ie where p: "p = (k, ie)" by (cases p)
  show ?case
  proof (cases "rule_skipped upTo ie")
    case True
    then have "fst (interestFor upTo (p # im) st) = (k, ie) # fst (interestFor upTo im st)"
      by (auto simp: p rule_skipped_def rule_anchor_def Let_def split_beta)
    moreover have "rule_advanced upTo (k, ie) (k, ie)"
      using True by (simp add: rule_advanced_def)
    ultimately show ?thesis using Cons.IH by (simp add: p)
  next
    case False
    define last1 where "last1 = addMonths (rule_anchor ie) (monthsBetweenInclusive (rule_anchor ie) upTo)"
    define last2 where "last2 = (if date_lt upTo last1 then upTo else last1)"
    have le: "date_le last2 upTo"
      by (simp add: last2_def not_date_lt_le)
    from False obtain st1 where
      "fst (interestFor upTo (p # im) st)
         = (k, ie\<lparr> ie_lastAppliedDate := last2 \<rparr>) # fst (interestFor upTo im st1)"
      by (auto simp: p rule_skipped_def rule_anchor_def Let_def split_beta last1_def last2_def)
    moreover have "rule_advanced upTo (k, ie) (k, ie\<lparr> ie_lastAppliedDate := last2 \<rparr>)"
      using False le by (simp add: rule_advanced_def)
    ultimately show ?thesis using Cons.IH by (simp add: p)
  qed
qed

lemma advanced_categories:
  assumes "list_all2 (rule_advanced upTo) im im'"
  shows "(\<lambda>p. ie_categoryNormalized (snd p)) ` set im' = (\<lambda>p. ie_categoryNormalized (snd p)) ` set im"
proof -
  have "map (\<lambda>p. ie_categoryNormalized (snd p)) im' = map (\<lambda>p. ie_categoryNormalized (snd p)) im"
    using assms
  proof (induction rule: list_all2_induct)
    case Nil
    then show ?case by simp
  next
    case (Cons x xs y ys)
    from Cons.hyps(1) have "snd y = (snd x)\<lparr> ie_lastAppliedDate := ie_lastAppliedDate (snd y) \<rparr>"
      by (simp add: rule_advanced_def)
    then have "ie_categoryNormalized (snd y) = ie_categoryNormalized (snd x)"
      by (metis InterestEntry.select_convs(1) InterestEntry.surjective InterestEntry.update_convs(5))
    with Cons.IH show ?case by simp
  qed
  then show ?thesis by (metis set_map)
qed

lemma applyInterestUpTo_covered:
  assumes "maps_covered acc"
  shows "maps_covered (applyInterestUpTo upTo acc)"
proof (cases "interestMap acc = []")
  case True
  then show ?thesis using assms by (simp add: applyInterestUpTo_def)
next
  case False
  let ?P = "\<lambda>x. maps_covered x \<and> interestMap x = interestMap acc"
  let ?r = "interestFor upTo (interestMap acc) (acc, txs acc)"
  have step: "?P (x\<lparr> txs := txs x @ [itx],
            categoryBalances := map_plus (ie_categoryNormalized ie) (tx_amount itx) (categoryBalances x),
            balance := balance x + tx_amount itx \<rparr>)"
    if "(k, ie) \<in> set (interestMap acc)" "?P x" for x itx k ie
  proof -
    let ?x' = "x\<lparr> txs := txs x @ [itx],
            categoryBalances := map_plus (ie_categoryNormalized ie) (tx_amount itx) (categoryBalances x),
            balance := balance x + tx_amount itx \<rparr>"
    have "ie_categoryNormalized ie \<in> interestCategories x"
      using that by (force simp: interestCategories_def)
    then have dn: "ie_categoryNormalized ie \<in> keys (displayNames x)"
      using that(2) by (auto simp: maps_covered_def)
    have ic: "interestCategories ?x' = interestCategories x"
      by (simp add: interestCategories_def)
    have "maps_covered ?x'"
      unfolding maps_covered_def ic using that(2) dn by (auto simp: maps_covered_def)
    then show ?thesis using that(2) by simp
  qed
  have P: "?P (fst (snd ?r))"
    by (rule interestFor_preserves [where P = ?P]) (use step assms in auto)
  have im: "interestMap (applyInterestUpTo upTo acc) = fst ?r"
    using False by (simp add: applyInterestUpTo_def split_beta)
  have cats: "interestCategories (applyInterestUpTo upTo acc) = interestCategories acc"
    unfolding interestCategories_def im
    by (rule advanced_categories [OF interestFor_advanced])
  have rest: "allocationPct (applyInterestUpTo upTo acc) = allocationPct (fst (snd ?r))"
    "categoryBalances (applyInterestUpTo upTo acc) = categoryBalances (fst (snd ?r))"
    "displayNames (applyInterestUpTo upTo acc) = displayNames (fst (snd ?r))"
    using False by (simp_all add: applyInterestUpTo_def split_beta)
  have "interestCategories (fst (snd ?r)) = interestCategories acc"
    using P by (simp add: interestCategories_def)
  then show ?thesis
    using P by (simp add: maps_covered_def cats rest)
qed


lemma interestCategories_put:
  "interestCategories (acc\<lparr> interestMap := map_put nk ie (interestMap acc), displayNames := dn \<rparr>)
     \<subseteq> insert (ie_categoryNormalized ie) (interestCategories acc)"
  using set_map_put [of nk ie "interestMap acc"]
  by (auto simp: interestCategories_def)

lemma loadInterestLine_cover:
  assumes "names_cover acc"
  shows "names_cover (loadInterestLine env line acc)"
proof -
  have one: "names_cover (acc\<lparr> interestMap := map_put nk ie (interestMap acc),
                       displayNames := put_if_absent nk display (displayNames acc) \<rparr>)"
    if "ie_categoryNormalized ie = nk" for nk ie display
    using assms that interestCategories_put [where acc = acc and nk = nk and ie = ie
        and dn = "put_if_absent nk display (displayNames acc)"]
    by (auto simp: names_cover_def)
  show ?thesis
    using assms by (auto simp: loadInterestLine_def Let_def intro!: one split: option.splits)
qed

lemma loadLine_cover:
  assumes "names_cover (account st)"
  shows "names_cover (account (loadLine env st line))"
proof -
  have a: "names_cover (loadSettingsLine line acc)" if "names_cover acc" for acc
    using that by (auto simp: loadSettingsLine_def Let_def names_cover_def interestCategories_def)
  have b: "names_cover (loadAllocLine env line acc)" if "names_cover acc" for acc
    using that
    by (auto simp: loadAllocLine_def Let_def names_cover_def interestCategories_def
          split: option.splits)
  have c: "names_cover (loadCatsLine env line acc)" if "names_cover acc" for acc
    using that
    by (auto simp: loadCatsLine_def Let_def names_cover_def interestCategories_def
          split: option.splits)
  have d: "names_cover (loadSchedLine env line acc)" if "names_cover acc" for acc
    using that
    by (auto simp: loadSchedLine_def Let_def names_cover_def interestCategories_def
          split: option.splits)
  have e: "names_cover (loadTxLine env line acc)" if "names_cover acc" for acc
    using that
    by (auto simp: loadTxLine_def Let_def names_cover_def interestCategories_def
          split: option.splits)
  show ?thesis
    using assms a b c d e loadInterestLine_cover
    by (auto simp: loadLine_def split: option.splits Section.splits)
qed

lemma loadLines_cover:
  "names_cover (account st) \<Longrightarrow> names_cover (account (foldl (loadLine env) st ls))"
  by (induction ls arbitrary: st) (simp_all add: loadLine_cover)

lemma recomputeFromTxs_keys:
  "keys (fst (recomputeFromTxs ts st))
     = keys (fst st) \<union> (\<lambda>t. normalizeKey (tx_category t)) ` set ts
   \<and> keys (snd (recomputeFromTxs ts st))
     = keys (snd st) \<union> (\<lambda>t. normalizeKey (tx_category t)) ` set ts"
proof (induction ts arbitrary: st)
  case Nil
  then show ?case by simp
next
  case (Cons t ts)
  obtain rc dn where st: "st = (rc, dn)" by (cases st)
  show ?case
    by (simp add: st Let_def Cons.IH)
qed

lemma keepStoredCats_keys: "keys (keepStoredCats ps rc) = keys rc \<union> keys ps"
proof (induction ps arbitrary: rc)
  case Nil
  then show ?case by simp
next
  case (Cons p ps)
  obtain k v where p: "p = (k, v)" by (cases p)
  have kp: "keys (p # ps) = insert k (keys ps)" by (simp add: keys_def p)
  show ?case unfolding kp by (simp add: p Cons.IH)
qed

lemma coverAllocations_keys:
  "keys (fst (coverAllocations ps st)) = keys (fst st) \<union> keys ps
   \<and> keys (snd (coverAllocations ps st)) = keys (snd st) \<union> keys ps"
proof (induction ps arbitrary: st)
  case Nil
  then show ?case by simp
next
  case (Cons p ps)
  obtain k v where p: "p = (k, v)" by (cases p)
  obtain dn cb where st: "st = (dn, cb)" by (cases st)
  have kp: "keys (p # ps) = insert k (keys ps)" by (simp add: keys_def p)
  show ?case unfolding kp by (simp add: p st Cons.IH)
qed

lemma finishLoad_covered:
  assumes "names_cover (account st)"
  shows "maps_covered (finishLoad st)"
proof -
  let ?acc = "account st"
  let ?r = "recomputeFromTxs (txs ?acc) ([], displayNames ?acc)"
  let ?rc2 = "keepStoredCats (categoryBalances ?acc) (fst ?r)"
  let ?c = "coverAllocations (allocationPct ?acc) (snd ?r, ?rc2)"
  let ?N = "(\<lambda>t. normalizeKey (tx_category t)) ` set (txs ?acc)"
  have f: "allocationPct (finishLoad st) = allocationPct ?acc"
    "interestMap (finishLoad st) = interestMap ?acc"
    "categoryBalances (finishLoad st) = snd ?c"
    "displayNames (finishLoad st) = fst ?c"
    by (simp_all add: finishLoad_def Let_def split_beta)
  have cb: "keys (snd ?c) = ?N \<union> keys (categoryBalances ?acc) \<union> keys (allocationPct ?acc)"
    by (simp add: coverAllocations_keys keepStoredCats_keys recomputeFromTxs_keys)
  have dn: "keys (fst ?c) = keys (displayNames ?acc) \<union> ?N \<union> keys (allocationPct ?acc)"
    by (simp add: coverAllocations_keys recomputeFromTxs_keys)
  have ic: "interestCategories (finishLoad st) = interestCategories ?acc"
    by (simp add: interestCategories_def f)
  show ?thesis
    unfolding maps_covered_def ic unfolding f cb dn
    using assms by (auto simp: names_cover_def)
qed

lemma loadContent_covered: "maps_covered (loadContent env content acc)"
  unfolding loadContent_def Let_def
  by (rule finishLoad_covered, rule loadLines_cover)
     (simp add: names_cover_def interestCategories_def)

lemma loadFromFile_covered:
  assumes "maps_covered acc"
  shows "maps_covered (snd (loadFromFile env fs filename acc))"
  using assms
  by (auto simp: loadFromFile_def Let_def loadContent_covered split: option.splits)


lemma addManual_dates:
  "map tx_date (txs (addManualTransaction dt amount cat memo acc)) = map tx_date (txs acc) @ [dt]"
  using addManual_txs [of dt amount cat memo acc] by auto

lemma scheduleWhile_stuck:
  assumes ty: "s_type s = MonthlyDay"
    and stay: "nextMonthlyOn (s_nextDate s) (s_param s) = s_nextDate s"
    and due: "date_le (s_nextDate s) upTo"
    and direct: "\<not> (s_autoAllocate s \<and> s_amount s > 0)"
  shows "fst (scheduleWhile upTo g s acc) = s
       \<and> map tx_date (txs (snd (scheduleWhile upTo g s acc)))
           = map tx_date (txs acc) @ replicate (10000 - g) (s_nextDate s)"
proof (induction "10000 - g" arbitrary: g acc)
  case 0
  then show ?case by (subst (1 2) scheduleWhile.simps) simp
next
  case (Suc n)
  have n: "n = 10000 - Suc g" and g: "g < 10000" using Suc.hyps(2) by simp_all
  define acc' where "acc' = addManualTransaction (s_nextDate s) (s_amount s)
               (if s_category s = [] then ''Other'' else s_category s)
               (''Scheduled: '' @ s_note s) acc"
  have same: "s\<lparr> s_nextDate := s_nextDate s \<rparr> = s" by simp
  have eq: "scheduleWhile upTo g s acc = scheduleWhile upTo (Suc g) s acc'"
    using g due direct ty
    by (subst scheduleWhile.simps) (auto simp: Let_def acc'_def stay)
  have d: "map tx_date (txs acc') = map tx_date (txs acc) @ [s_nextDate s]"
    unfolding acc'_def by (rule addManual_dates)
  have r: "10000 - g = Suc (10000 - Suc g)" using g by simp
  show ?case
    unfolding eq using Suc.hyps(1) [OF n, of acc'] by (simp add: d r replicate_app_Cons_same)
qed

section \<open>The escaped record codec does not round-trip\<close>

text \<open>
  C1 (fails on the code). The claim: splitting the joined, escaped fields gives the fields
  back. \<^verbatim>\<open>splitEscaped\<close> removes each escaping backslash in its scanning loop and then calls
  \<^verbatim>\<open>unescapeLoaded\<close> on the parts, which unescapes a second time. A field that holds one
  newline is written as backslash, n; the scan leaves the letter n, and that is what comes
  back. A field \<^verbatim>\<open>a\b\<close> comes back as \<^verbatim>\<open>ab\<close>.
\<close>

theorem splitEscaped_loses_newline_and_backslash:
  "splitEscaped (joinEscaped [[newline]]) = [''n'']
   \<and> splitEscaped (joinEscaped [[CHR ''a'', bslash, CHR ''b'']]) = [''ab'']"
  by (simp add: splitEscaped_def newline_def bslash_def pipe_def)

section \<open>Loading\<close>

text \<open>
  C2 (fails on the code). The claim: when at least one transaction was parsed, the balance
  is the sum of the transaction amounts and the stored balance is discarded. The code keeps
  the stored balance whenever the recomputed sum is zero, not only when there is no
  transaction: with a stored balance of 50 and the transactions +100 and -100, two
  transactions are loaded, their sum is 0, and the balance is 50.
\<close>

theorem loadFromFile_zero_sum_keeps_stored_balance:
  "fst (loadFromFile libc_plain zero_sum_fs ''finance_save.txt'' Account_new)
   \<and> length (txs (snd (loadFromFile libc_plain zero_sum_fs ''finance_save.txt'' Account_new))) = 2
   \<and> sumAmounts (txs (snd (loadFromFile libc_plain zero_sum_fs ''finance_save.txt'' Account_new))) = 0
   \<and> balance (snd (loadFromFile libc_plain zero_sum_fs ''finance_save.txt'' Account_new)) = 50"
  by code_simp

text \<open>
  C10. When neither the store file nor, under its bare file name, the legacy file in the
  working directory can be opened, \<^verbatim>\<open>loadFromFile\<close> returns false and the account is the
  one it was given: nothing is cleared or reset before a file is open.
\<close>

theorem loadFromFile_unopened_leaves_account:
  assumes "fs filename = None"
    and "path_filename filename = filename \<or> fs (path_filename filename) = None"
  shows "loadFromFile env fs filename acc = (False, acc)"
  using assms by (auto simp: loadFromFile_def Let_def)

text \<open>C10 at a fresh account, with no file at all.\<close>

theorem loadFromFile_unopened_witness:
  "loadFromFile libc_plain no_files ''data/save/finance_save.txt'' Account_new
     = (False, Account_new)"
  using loadFromFile_unopened_leaves_account
    [of no_files "''data/save/finance_save.txt''" libc_plain Account_new]
  by (simp add: no_files_def)

section \<open>Calendar\<close>

text \<open>
  C6 (fails on the code). The claim: for a target day in 1..31, \<^verbatim>\<open>nextMonthlyOn\<close> returns a
  date strictly after the date it is given. The code compares the day of the month with
  the target day before it clamps the target to the length of the month: from 2024-04-30
  with target day 31 it takes the branch of this month, clamps 31 to 30, and returns
  2024-04-30, the date it was given. From 2024-02-29 it returns 2024-02-29.
\<close>

theorem nextMonthlyOn_returns_its_argument:
  "nextMonthlyOn (Date 2024 4 30) 31 = Date 2024 4 30
   \<and> nextMonthlyOn (Date 2024 2 29) 31 = Date 2024 2 29
   \<and> \<not> date_lt (Date 2024 4 30) (nextMonthlyOn (Date 2024 4 30) 31)"
  by code_simp

section \<open>Interest\<close>

text \<open>
  C3, as the specification states it, fails: the scenario does not post exactly two
  interest transactions.
\<close>

theorem interest_scenario_not_two_postings:
  "length (txs (applyInterestUpTo (Date 2024 3 1) interest_account))
     - length (txs interest_account) \<noteq> 2"
  by code_simp

text \<open>
  C3 (amended). In the scenario, \<^verbatim>\<open>applyInterestUpTo(2024-03-01)\<close> posts exactly three
  interest transactions, dated 2024-01-01, 2024-02-01 and 2024-03-01. The first apply date
  is the anchor itself, the later of the last-applied and the start date, not one month
  after it. The first posting is 1 percent of the balance 100, the second of 101 and the
  third of 102.01: each is computed on the balance that includes the earlier postings.
\<close>

theorem interest_scenario_three_postings:
  "txs (applyInterestUpTo (Date 2024 3 1) interest_account) =
     txs interest_account @
       [interest_tx (Date 2024 1 1) 1,
        interest_tx (Date 2024 2 1) (101 / 100),
        interest_tx (Date 2024 3 1) (10201 / 10000)]
   \<and> monthsBetweenInclusive (Date 2024 1 1) (Date 2024 3 1) = 3
   \<and> addMonths (Date 2024 1 1) 0 = Date 2024 1 1"
  by code_simp

section \<open>Allocation and the total balance\<close>

text \<open>
  C7. For a positive amount and allocation percentages whose sum exceeds the threshold
  0.000001, \<^verbatim>\<open>allocateAmount\<close> appends exactly one transaction per allocation entry, in
  the order of the entries, each dated with the given date and of amount
  \<open>amount * (percent / totalPct)\<close>, and the appended amounts sum to the amount (in exact
  arithmetic).
\<close>

theorem allocateAmount_conserves_amount:
  assumes "0 < amount" and "1 / 1000000 < totalPercent (allocationPct acc)"
  shows "txs (allocateAmount dt amount memo acc)
           = txs acc @ appended acc (allocateAmount dt amount memo acc)
       \<and> map tx_amount (appended acc (allocateAmount dt amount memo acc))
           = map (\<lambda>p. amount * (snd p / totalPercent (allocationPct acc))) (allocationPct acc)
       \<and> map tx_date (appended acc (allocateAmount dt amount memo acc))
           = map (\<lambda>p. dt) (allocationPct acc)
       \<and> sumAmounts (appended acc (allocateAmount dt amount memo acc)) = amount"
proof -
  let ?T = "totalPercent (allocationPct acc)"
  have T: "?T \<noteq> 0" using assms(2) by auto
  have eq: "allocateAmount dt amount memo acc
            = allocateShares dt amount memo ?T (allocationPct acc) acc"
    using assms(2) by (simp add: allocateAmount_def Let_def)
  obtain posted where
    P1: "txs (allocateShares dt amount memo ?T (allocationPct acc) acc) = txs acc @ posted" and
    P2: "map tx_amount posted = map (\<lambda>p. amount * (snd p / ?T)) (allocationPct acc)" and
    P3: "map tx_date posted = map (\<lambda>p. dt) (allocationPct acc)"
    using allocateShares_txs by blast
  have S: "sum_list (map (\<lambda>p. amount * (snd p / c)) m) = amount * (sum_list (map snd m) / c)"
    for m :: "rat smap" and c
    by (induction m) (simp_all add: algebra_simps add_divide_distrib)
  have "sumAmounts posted
          = sum_list (map (\<lambda>p. amount * (snd p / ?T)) (allocationPct acc))"
    by (simp only: sumAmounts_sum_list P2)
  also have "\<dots> = amount * (sum_list (map snd (allocationPct acc)) / ?T)"
    by (rule S)
  also have "\<dots> = amount * (?T / ?T)"
    by (simp only: totalPercent_sum_list)
  also have "\<dots> = amount"
    using T by simp
  finally have P4: "sumAmounts posted = amount" .
  have A: "appended acc (allocateAmount dt amount memo acc) = posted"
    by (simp add: appended_def eq P1)
  show ?thesis
    unfolding A using P1 P2 P3 P4 by (simp add: eq)
qed

text \<open>C7 at a fresh account, whose default percentages sum to 100, with the amount 100.\<close>

theorem allocateAmount_conserves_witness:
  "(0::rat) < 100 \<and> 1 / 1000000 < totalPercent (allocationPct Account_new)
   \<and> map tx_amount (appended Account_new (allocateAmount (Date 2024 1 1) 100 ''pay'' Account_new))
       = map (\<lambda>p. 100 * (snd p / totalPercent (allocationPct Account_new)))
           (allocationPct Account_new)
   \<and> sumAmounts (appended Account_new (allocateAmount (Date 2024 1 1) 100 ''pay'' Account_new))
       = 100"
proof -
  have pos: "(0::rat) < 100" by simp
  have thr: "1 / 1000000 < totalPercent (allocationPct Account_new)" by code_simp
  show ?thesis
    using pos thr allocateAmount_conserves_amount [OF pos thr] by blast
qed

text \<open>
  C9. From a state whose total balance is the sum of the logged amounts, each of
  \<^verbatim>\<open>addManualTransaction\<close>, \<^verbatim>\<open>allocateAmount\<close>, \<^verbatim>\<open>processSchedulesUpTo\<close> and
  \<^verbatim>\<open>applyInterestUpTo\<close> leads to such a state again; each only appends to the log, and changes
  the total balance by the sum of the amounts it appended.
\<close>

theorem operations_keep_balance:
  assumes "balanced acc"
  shows "balanced (addManualTransaction dt amount cat memo acc)
       \<and> balanced (allocateAmount dt amount memo acc)
       \<and> balanced (processSchedulesUpTo upTo acc)
       \<and> balanced (applyInterestUpTo upTo acc)
       \<and> posts_change acc (addManualTransaction dt amount cat memo acc)
       \<and> posts_change acc (allocateAmount dt amount memo acc)
       \<and> posts_change acc (processSchedulesUpTo upTo acc)
       \<and> posts_change acc (applyInterestUpTo upTo acc)"
  using assms addManual_posts allocateAmount_posts processSchedulesUpTo_posts
    applyInterestUpTo_posts posts_change_balanced
  by blast

text \<open>C9 at the account of the schedule scenario, which is fresh and so balanced.\<close>

theorem operations_keep_balance_witness:
  "balanced monthly31_account
   \<and> balanced (addManualTransaction (Date 2024 1 1) 5 ''Food'' ''lunch'' monthly31_account)
   \<and> balanced (allocateAmount (Date 2024 1 1) 100 ''pay'' monthly31_account)
   \<and> balanced (processSchedulesUpTo (Date 2024 4 30) monthly31_account)
   \<and> balanced (applyInterestUpTo (Date 2024 4 30) monthly31_account)"
proof -
  have b: "balanced monthly31_account" by code_simp
  show ?thesis
    using b operations_keep_balance [OF b, where dt = "Date 2024 1 1" and amount = 5
        and cat = "''Food''" and memo = "''lunch''" and upTo = "Date 2024 4 30"]
      operations_keep_balance [OF b, where dt = "Date 2024 1 1" and amount = 100
        and memo = "''pay''" and upTo = "Date 2024 4 30"]
    by blast
qed

section \<open>Repeated interest and skipped rules\<close>

text \<open>
  C4, as the specification states it, fails twice. A rule that starts after the target
  date is skipped, and its last-applied date stays after the target date. And a second
  call with the same target date posts interest again: after the first call the
  last-applied date is the target date itself, and the next call applies at its anchor.
\<close>

theorem applyInterestUpTo_not_idempotent:
  "map (\<lambda>p. ie_lastAppliedDate (snd p))
       (interestMap (applyInterestUpTo (Date 2024 3 1) future_rule_account)) = [Date 2025 1 1]
   \<and> date_lt (Date 2024 3 1) (Date 2025 1 1)
   \<and> length (txs (applyInterestUpTo (Date 2024 3 1)
                     (applyInterestUpTo (Date 2024 3 1) interest_account)))
       = Suc (length (txs (applyInterestUpTo (Date 2024 3 1) interest_account)))
   \<and> balance (applyInterestUpTo (Date 2024 3 1)
                (applyInterestUpTo (Date 2024 3 1) interest_account))
       \<noteq> balance (applyInterestUpTo (Date 2024 3 1) interest_account)"
  by code_simp

text \<open>
  C4 (amended). For every account state and every target date \<open>d\<close>, \<^verbatim>\<open>applyInterestUpTo(d)\<close>
  keeps the interest rules and their order, and changes at most the last-applied date of
  a rule: a rule that is skipped (its start date is after \<open>d\<close>, or no month is counted from
  its anchor up to \<open>d\<close>) is left as it is, and every other rule's last-applied date is at
  most \<open>d\<close> afterwards.
\<close>

theorem applyInterestUpTo_rules_advanced:
  "list_all2 (rule_advanced upTo) (interestMap acc) (interestMap (applyInterestUpTo upTo acc))"
proof (cases "interestMap acc = []")
  case True
  then show ?thesis by (simp add: applyInterestUpTo_def)
next
  case False
  then have "interestMap (applyInterestUpTo upTo acc)
             = fst (interestFor upTo (interestMap acc) (acc, txs acc))"
    by (simp add: applyInterestUpTo_def split_beta)
  then show ?thesis by (simp add: interestFor_advanced)
qed

text \<open>C4 (amended) in the interest scenario, where the rule is not skipped.\<close>

theorem applyInterestUpTo_rules_advanced_witness:
  "\<not> rule_skipped (Date 2024 3 1) interest_rule
   \<and> list_all2 (rule_advanced (Date 2024 3 1)) (interestMap interest_account)
         (interestMap (applyInterestUpTo (Date 2024 3 1) interest_account))"
proof -
  have "\<not> rule_skipped (Date 2024 3 1) interest_rule" by code_simp
  then show ?thesis
    using applyInterestUpTo_rules_advanced [of "Date 2024 3 1" interest_account] by simp
qed

section \<open>The monthly schedule on day 31\<close>

text \<open>
  C5 (fails on the code). The claim: the schedule fires four times, on 2024-01-31,
  2024-02-29, 2024-03-31 and 2024-04-30, and its next date ends after 2024-04-30. On the
  code the schedule fires on 2024-01-31 and moves to 2024-02-29; from there
  \<^verbatim>\<open>nextMonthlyOn\<close> returns 2024-02-29 again, so the loop posts on 2024-02-29 until its
  guard stops it at 10000 turns: 10000 transactions, 9999 of them dated 2024-02-29, and
  the next date is still 2024-02-29.
\<close>

theorem monthly31_schedule_repeats_february:
  "map tx_date (txs (processSchedulesUpTo (Date 2024 4 30) monthly31_account))
     = Date 2024 1 31 # replicate 9999 (Date 2024 2 29)
   \<and> map s_nextDate (schedules (processSchedulesUpTo (Date 2024 4 30) monthly31_account))
     = [Date 2024 2 29]"
proof -
  let ?upTo = "Date 2024 4 30"
  let ?s = "monthly31\<lparr> s_nextDate := Date 2024 2 29 \<rparr>"
  let ?acc1 = "addManualTransaction (Date 2024 1 31) 10 ''Other'' ''Scheduled: rent''
                 monthly31_account"
  have nm: "nextMonthlyOn (Date 2024 1 31) 31 = Date 2024 2 29"
    "nextMonthlyOn (Date 2024 2 29) 31 = Date 2024 2 29" by code_simp+
  have le: "date_le (Date 2024 1 31) ?upTo" "date_le (Date 2024 2 29) ?upTo"
    by (simp_all add: date_le_def)
  have first: "scheduleWhile ?upTo 0 monthly31 monthly31_account
                 = scheduleWhile ?upTo (Suc 0) ?s ?acc1"
    by (subst scheduleWhile.simps)
       (simp add: monthly31_def Let_def le nm del: nextMonthlyOn.simps)
  have stuck: "fst (scheduleWhile ?upTo (Suc 0) ?s ?acc1) = ?s
       \<and> map tx_date (txs (snd (scheduleWhile ?upTo (Suc 0) ?s ?acc1)))
           = map tx_date (txs ?acc1) @ replicate (10000 - Suc 0) (s_nextDate ?s)"
    by (rule scheduleWhile_stuck)
       (simp_all add: monthly31_def nm le del: nextMonthlyOn.simps)
  have t0: "txs monthly31_account = []" by code_simp
  have d1: "map tx_date (txs ?acc1) = [Date 2024 1 31]"
    by (simp add: addManual_dates t0)
  have run: "processSchedulesUpTo ?upTo monthly31_account
      = (snd (scheduleWhile ?upTo 0 monthly31 monthly31_account))
          \<lparr> schedules := [fst (scheduleWhile ?upTo 0 monthly31 monthly31_account)] \<rparr>"
    by (simp add: processSchedulesUpTo_def monthly31_account_def Let_def split_beta)
       (simp add: monthly31_def)
  show ?thesis
    unfolding run first using stuck d1 by simp
qed

section \<open>The category maps\<close>

text \<open>
  C8, as the specification states it, fails: on a fresh account, whose three maps have the
  same four keys, \<^verbatim>\<open>addManualTransaction\<close> with the new category "Food" adds the key to the
  display names and the category balances and not to the allocation percentages.
\<close>

theorem addManualTransaction_breaks_maps_aligned:
  "maps_aligned Account_new
   \<and> \<not> maps_aligned (addManualTransaction (Date 2024 1 1) 5 ''Food'' ''lunch'' Account_new)"
  by code_simp

text \<open>
  C8 (amended). Posting a manual transaction, allocating, setting the allocations,
  processing the schedules, applying interest and loading each preserve this invariant:
  every key of the allocation percentages is a key of the category balances, every key of
  the category balances is a key of the display names, and the category of every interest
  rule is a key of the display names.
\<close>

theorem operations_keep_maps_covered:
  assumes "maps_covered acc"
  shows "maps_covered (addManualTransaction dt amount cat memo acc)
       \<and> maps_covered (allocateAmount dt amount memo acc)
       \<and> maps_covered (setAllocation newAlloc acc)
       \<and> maps_covered (processSchedulesUpTo upTo acc)
       \<and> maps_covered (applyInterestUpTo upTo acc)
       \<and> maps_covered (snd (loadFromFile env fs filename acc))"
  using assms
  by (simp add: addManual_covered allocateAmount_covered setAllocation_covered
        processSchedulesUpTo_covered applyInterestUpTo_covered loadFromFile_covered)

text \<open>C8 (amended) at a fresh account, loading the store of the zero-sum scenario.\<close>

theorem operations_keep_maps_covered_witness:
  "maps_covered Account_new
   \<and> maps_covered (addManualTransaction (Date 2024 1 1) 5 ''Food'' ''lunch'' Account_new)
   \<and> maps_covered (setAllocation [(''Food'', 100)] Account_new)
   \<and> maps_covered (snd (loadFromFile libc_plain zero_sum_fs ''finance_save.txt'' Account_new))"
proof -
  have h: "maps_covered Account_new" by code_simp
  show ?thesis
    using h operations_keep_maps_covered [OF h, where dt = "Date 2024 1 1" and amount = 5
        and cat = "''Food''" and memo = "''lunch''" and newAlloc = "[(''Food'', 100)]"
        and env = libc_plain and fs = zero_sum_fs and filename = "''finance_save.txt''"]
    by blast
qed

end
